theory Spec2Isabelle
  imports Main "HOL-Library.Sublist"
begin

section \<open>Shared vocabulary\<close>

text \<open>
  Values that cross the tool and tune interfaces are untyped JavaScript data
  (\<^verbatim>\<open>BlockToolData\<close>, \<^verbatim>\<open>BlockTuneData\<close>); a small JSON-like datatype stands for them.
  \<open>JObj\<close> is a plain object given by its own entries, with \<^verbatim>\<open>Object.prototype\<close> as
  its prototype. \<open>JBuiltin m\<close> is what reading the member \<open>m\<close> that every plain
  object inherits from \<^verbatim>\<open>Object.prototype\<close> gives: a built-in function, or for
  \<^verbatim>\<open>__proto__\<close> the prototype object itself.
\<close>

datatype jsval =
    JUndefined
  | JNull
  | JBool bool
  | JNum int
  | JStr string
  | JObj "(string \<times> jsval) list"
  | JBuiltin string

text \<open>A thrown JavaScript exception (or a rejected promise) carries one of these.\<close>

datatype error =
    Error string
  | TypeError string
  | CriticalError string

text \<open>
  Everything the two classes do to their collaborators is recorded, in order, in a
  trace of events: calls of hooks of other modules, of tool methods, the logger,
  the event dispatcher, and the save/clear/render pipeline.
\<close>

datatype log_arg = NoArg | ErrArg error | StrArg string

datatype event =
    ToggleReadOnly string bool
  | SaverSave
  | BlockManagerClear
  | RendererRender "jsval list"
  | Log string string log_arg
  | ToolMethod string
  | Emit string
  | DispatcherDestroy

text \<open>\<^verbatim>\<open>Array.prototype.join\<close>.\<close>

fun join :: "string \<Rightarrow> string list \<Rightarrow> string" where
  "join sep [] = []"
| "join sep [x] = x"
| "join sep (x # y # ys) = x @ sep @ join sep (y # ys)"


definition message :: "error \<Rightarrow> string" where
  "message e = (case e of Error m \<Rightarrow> m | TypeError m \<Rightarrow> m | CriticalError m \<Rightarrow> m)"

text \<open>The string an error turns into inside a template literal.\<close>

definition error_toString :: "error \<Rightarrow> string" where
  "error_toString e =
     (case e of Error m \<Rightarrow> ''Error: '' @ m | TypeError m \<Rightarrow> ''TypeError: '' @ m
      | CriticalError m \<Rightarrow> ''Error: '' @ m)"

subsection \<open>DOM nodes\<close>

text \<open>
  A DOM tree as the unit builds it and as a mutation record reports it: an element
  with tag, class list, attributes, \<^verbatim>\<open>dataset\<close> and children; a text node; or
  markup assigned through \<^verbatim>\<open>innerHTML\<close>, kept unparsed.
\<close>

datatype node =
    Element (tag: string) (classes: "string list") (attributes: "(string \<times> string) list")
      (dataset: "(string \<times> string) list") (childNodes: "node list")
  | TextNode string
  | Html string

text \<open>\<^verbatim>\<open>$.make(tag, classes)\<close> of the DOM helper: a fresh element with the classes.\<close>

definition dom_make :: "string \<Rightarrow> string list \<Rightarrow> node" where
  "dom_make t cls = Element t cls [] [] []"

fun appendChild :: "node \<Rightarrow> node \<Rightarrow> node" where
  "appendChild (Element t cls at ds ch) c = Element t cls at ds (ch @ [c])"
| "appendChild n c = n"

fun setAttribute :: "node \<Rightarrow> string \<Rightarrow> string \<Rightarrow> node" where
  "setAttribute (Element t cls at ds ch) k v = Element t cls (at @ [(k, v)]) ds ch"
| "setAttribute n k v = n"

text \<open>\<^verbatim>\<open>$.isElement(node)\<close>: the node is an element node.\<close>

fun isElement :: "node \<Rightarrow> bool" where
  "isElement (Element t cls at ds ch) = True"
| "isElement n = False"

text \<open>\<^verbatim>\<open>node.dataset[key]\<close>, \<open>None\<close> for \<^verbatim>\<open>undefined\<close>.\<close>

fun dataset_get :: "node \<Rightarrow> string \<Rightarrow> string option" where
  "dataset_get (Element t cls at ds ch) k = map_of ds k"
| "dataset_get n k = None"

text \<open>
  \<^verbatim>\<open>root.querySelector('.' + c)\<close>: the first descendant in document order that
  carries the class; the search runs through a forest, the children of the root.
\<close>

fun find_class :: "string \<Rightarrow> node list \<Rightarrow> node option" where
  "find_class c [] = None"
| "find_class c (Element t cls at ds ch # ns) =
     (if c \<in> set cls then Some (Element t cls at ds ch)
      else (case find_class c ch of Some m \<Rightarrow> Some m | None \<Rightarrow> find_class c ns))"
| "find_class c (n # ns) = find_class c ns"

fun querySelector :: "string \<Rightarrow> node \<Rightarrow> node option" where
  "querySelector c (Element t cls at ds ch) = find_class c ch"
| "querySelector c n = None"

subsection \<open>Tools and tunes as the unit sees them\<close>

text \<open>
  A hook of a tool or a tune is user code. What the unit observes of one call is
  whether it returns (and what) or throws; an absent hook is \<open>None\<close>.
\<close>

text \<open>
  An instance of a tune (\<^verbatim>\<open>IBlockTune\<close>): the name of its class, used in log
  messages, and its optional \<^verbatim>\<open>save\<close> and \<^verbatim>\<open>wrap\<close> hooks. A tune of the tool
  (\<^verbatim>\<open>BlockTune\<close>) has a name, is internal or not, and creates an instance from the
  persisted data. An instance of a tool (\<^verbatim>\<open>IBlockTool\<close>) renders its content, saves
  (the promise resolves or rejects), and has the optional hooks \<^verbatim>\<open>merge\<close>,
  \<^verbatim>\<open>validate\<close>, \<^verbatim>\<open>destroy\<close> and those that \<^verbatim>\<open>call\<close> looks up by name.
  The unit awaits what \<^verbatim>\<open>save\<close>, \<^verbatim>\<open>merge\<close> and \<^verbatim>\<open>validate\<close> of the tool return, so
  an error of one of these stands for a throw or for a rejection. Every other hook is
  called without \<^verbatim>\<open>await\<close>: an error is a throw, and a promise the hook returns is
  a returned value like any other (dropped by \<^verbatim>\<open>destroy\<close> and \<^verbatim>\<open>call\<close>).
\<close>

record tune_instance =
  constructor_name :: string
  tune_save :: "(unit \<Rightarrow> error + jsval) option"
  tune_wrap :: "(node \<Rightarrow> error + node) option"

record tune =
  tune_name :: string
  isInternal :: bool
  tune_create :: "jsval \<Rightarrow> tune_instance"

record tool_instance =
  tool_render :: node
  tool_save :: "node option \<Rightarrow> error + jsval"
  tool_merge :: "(jsval \<Rightarrow> error option) option"
  tool_validate :: "(jsval \<Rightarrow> error + bool) option"
  tool_destroy :: "(unit \<Rightarrow> error option) option"
  tool_methods :: "string \<Rightarrow> (jsval option \<Rightarrow> error option) option"

record toolbox_settings =
  icon :: "string option"
  title :: "string option"

record block_tool =
  tool_name :: string
  tool_create :: "jsval \<Rightarrow> bool \<Rightarrow> tool_instance"
  tool_tunes :: "tune list"
  toolbox :: "toolbox_settings option"
  isReadOnlySupported :: bool

text \<open>A string used as a condition: \<^verbatim>\<open>undefined\<close> and the empty string are falsy.\<close>

definition truthy :: "string option \<Rightarrow> bool" where
  "truthy s = (s \<noteq> None \<and> s \<noteq> Some [])"

subsection \<open>JavaScript containers\<close>

text \<open>
  A \<^verbatim>\<open>Map\<close> keeps insertion order: \<^verbatim>\<open>set\<close> replaces the value of a key in
  place or appends a new entry.
\<close>

fun map_set :: "'k \<Rightarrow> 'v \<Rightarrow> ('k \<times> 'v) list \<Rightarrow> ('k \<times> 'v) list" where
  "map_set k v [] = [(k, v)]"
| "map_set k v ((k', v') # kvs) =
     (if k' = k then (k, v) # kvs else (k', v') # map_set k v kvs)"

definition map_has :: "'k \<Rightarrow> ('k \<times> 'v) list \<Rightarrow> bool" where
  "map_has k m = (k \<in> set (map fst m))"

text \<open>The names of the members of \<^verbatim>\<open>Object.prototype\<close>.\<close>

definition object_prototype_members :: "string list" where
  "object_prototype_members =
     [''constructor'', ''__defineGetter__'', ''__defineSetter__'', ''hasOwnProperty'',
      ''__lookupGetter__'', ''__lookupSetter__'', ''isPrototypeOf'', ''propertyIsEnumerable'',
      ''toString'', ''valueOf'', ''__proto__'', ''toLocaleString'']"

text \<open>
  \<^verbatim>\<open>obj[key]\<close> on a plain object given by its own entries: an own entry wins,
  otherwise the member inherited from \<^verbatim>\<open>Object.prototype\<close>, otherwise
  \<^verbatim>\<open>undefined\<close>.
\<close>

definition js_get :: "(string \<times> jsval) list \<Rightarrow> string \<Rightarrow> jsval" where
  "js_get obj k =
     (case map_of obj k of
        Some v \<Rightarrow> v
      | None \<Rightarrow> if k \<in> set object_prototype_members then JBuiltin k else JUndefined)"

text \<open>
  A mutable object of the store: its own entries and its prototype, which is
  \<^verbatim>\<open>Object.prototype\<close> for an object literal, \<^verbatim>\<open>null\<close>, or an object value that
  was assigned through \<^verbatim>\<open>__proto__\<close>.
\<close>

datatype prototype = ObjectPrototype | NullPrototype | ValuePrototype jsval

record js_object =
  own_props :: "string \<rightharpoonup> jsval"
  prototype_of :: prototype

text \<open>
  Whether an assignment to \<^verbatim>\<open>__proto__\<close> on an object with this prototype, and
  without an own entry of that name, reaches the setter of \<^verbatim>\<open>Object.prototype\<close>:
  not when the chain ends in \<^verbatim>\<open>null\<close>, and not when the prototype is an object with
  an own entry \<^verbatim>\<open>__proto__\<close>, which is then an inherited data property.
\<close>

definition reaches_setter :: "prototype \<Rightarrow> bool" where
  "reaches_setter p =
     (case p of
        ObjectPrototype \<Rightarrow> True
      | NullPrototype \<Rightarrow> False
      | ValuePrototype (JObj es) \<Rightarrow> ''__proto__'' \<notin> set (map fst es)
      | ValuePrototype _ \<Rightarrow> True)"

text \<open>
  \<^verbatim>\<open>obj[k] = v\<close>. For every name but \<^verbatim>\<open>__proto__\<close> the own entry is created or
  replaced. For \<^verbatim>\<open>__proto__\<close> on an object that inherits the setter, no own entry
  is made: an object or \<^verbatim>\<open>null\<close> becomes the prototype, any other value is ignored.
\<close>

definition obj_assign :: "js_object \<Rightarrow> string \<Rightarrow> jsval \<Rightarrow> js_object" where
  "obj_assign obj k v =
     (if k = ''__proto__'' \<and> own_props obj k = None \<and> reaches_setter (prototype_of obj)
      then (case v of
              JObj es \<Rightarrow> obj\<lparr>prototype_of := ValuePrototype v\<rparr>
            | JBuiltin m \<Rightarrow> obj\<lparr>prototype_of := ValuePrototype v\<rparr>
            | JNull \<Rightarrow> obj\<lparr>prototype_of := NullPrototype\<rparr>
            | _ \<Rightarrow> obj)
      else obj\<lparr>own_props := (own_props obj)(k \<mapsto> v)\<rparr>)"

text \<open>\<^verbatim>\<open>xs[i]\<close> on an array: \<^verbatim>\<open>undefined\<close> (\<open>None\<close>) outside the range, no exception.\<close>

definition js_index :: "'a list \<Rightarrow> int \<Rightarrow> 'a option" where
  "js_index xs i = (if 0 \<le> i \<and> i < int (length xs) then Some (xs ! nat i) else None)"

text \<open>\<^verbatim>\<open>Array.prototype.findIndex\<close>.\<close>

fun findIndex :: "('a \<Rightarrow> bool) \<Rightarrow> 'a list \<Rightarrow> int" where
  "findIndex p [] = - 1"
| "findIndex p (x # xs) =
     (if p x then 0 else (let i = findIndex p xs in if i = - 1 then - 1 else i + 1))"

subsection \<open>The world outside the unit\<close>

text \<open>
  The tune-data objects live in a store of mutable objects, so that two references to
  one object are one address. The world is that store, the next free address, and the
  trace.
\<close>

type_synonym addr = nat

record world =
  heap :: "addr \<Rightarrow> js_object"
  next_addr :: addr
  trace :: "event list"

definition alloc :: "world \<Rightarrow> addr \<times> world" where
  "alloc w = (next_addr w,
     w\<lparr>heap := (heap w)(next_addr w := \<lparr>own_props = Map.empty, prototype_of = ObjectPrototype\<rparr>),
       next_addr := Suc (next_addr w)\<rparr>)"

text \<open>\<^verbatim>\<open>obj[name] = v\<close> on the object at address \<open>a\<close>.\<close>

definition obj_set :: "addr \<Rightarrow> string \<Rightarrow> jsval \<Rightarrow> world \<Rightarrow> world" where
  "obj_set a k v w = w\<lparr>heap := (heap w)(a := obj_assign (heap w a) k v)\<rparr>"

text \<open>\<^verbatim>\<open>_.log(msg, type, args)\<close>.\<close>

definition log :: "string \<Rightarrow> string \<Rightarrow> log_arg \<Rightarrow> world \<Rightarrow> world" where
  "log msg type args w = w\<lparr>trace := trace w @ [Log msg type args]\<rparr>"

definition record_event :: "event \<Rightarrow> world \<Rightarrow> world" where
  "record_event ev w = w\<lparr>trace := trace w @ [ev]\<rparr>"

text \<open>
  DOM objects the unit only compares and queries (its inputs, the focused element,
  the selection anchor) are identified by a number. The live document answers the
  queries of \<^verbatim>\<open>dom.ts\<close> and \<^verbatim>\<open>selection.ts\<close>, which are outside this unit.
\<close>

type_synonym element = nat

record dom =
  findAllInputs :: "element list"
  contains :: "element \<Rightarrow> element \<Rightarrow> bool"
  activeElement :: "element option"
  isNativeInput :: "element \<Rightarrow> bool"
  anchorNode :: "element option"
  isExtensionNode :: "node \<Rightarrow> bool"

text \<open>
  What the unit uses of the editor API: the block tools in the order of
  \<^verbatim>\<open>blockTools.values()\<close>, the translation of a tool name, and the icon builder
  \<^verbatim>\<open>$.svg(name, width, height)\<close>.
\<close>

record api =
  blockTools :: "block_tool list"
  i18n_t :: "string \<Rightarrow> string"
  svg :: "string \<Rightarrow> nat \<Rightarrow> nat \<Rightarrow> node"

section \<open>The editable unit (block/index.ts)\<close>

record saved_data =
  saved_id :: string
  saved_tool :: string
  saved_data :: jsval
  saved_tunes :: addr
  saved_time :: int

record block =
  block_id :: string
  block_name :: string
  holder :: node
  toolInstance :: tool_instance
  tunesInstances :: "(string \<times> tune_instance) list"
  defaultTunesInstances :: "(string \<times> tune_instance) list"
  unavailableTunesData :: addr
  cachedInputs :: "element list"
  inputIndex :: int
  nodes_toolbox :: node
  nodes_buttons :: "node list"
  displayedToolsCount :: nat
  canBeRemoved :: bool
  canBeEdited :: bool
  opened :: bool


subsection \<open>Input discovery\<close>

text \<open>
  The getter \<^verbatim>\<open>inputs\<close>: a non-empty cache is returned as it is; otherwise the
  inputs are looked up in the live document, the index is lowered to the last
  position if it lies beyond it, and the list is cached.
\<close>

definition inputs :: "dom \<Rightarrow> block \<Rightarrow> block \<times> element list" where
  "inputs D b =
     (if length (cachedInputs b) \<noteq> 0 then (b, cachedInputs b)
      else
        let ins = findAllInputs D;
            b1 = (if inputIndex b > int (length ins) - 1
                  then b\<lparr>inputIndex := int (length ins) - 1\<rparr> else b);
            b2 = b1\<lparr>cachedInputs := ins\<rparr>
        in (b2, ins))"

text \<open>
  The getter \<^verbatim>\<open>currentInput\<close> is \<^verbatim>\<open>this.inputs[this.inputIndex]\<close>: the list is
  evaluated first, the index is read afterwards.
\<close>

definition currentInput :: "dom \<Rightarrow> block \<Rightarrow> block \<times> element option" where
  "currentInput D b = (case inputs D b of (b1, ins) \<Rightarrow> (b1, js_index ins (inputIndex b1)))"

text \<open>The setter \<^verbatim>\<open>currentInput = element\<close>; the element may be \<^verbatim>\<open>null\<close>.\<close>

definition set_currentInput :: "dom \<Rightarrow> element option \<Rightarrow> block \<Rightarrow> block" where
  "set_currentInput D el b =
     (case inputs D b of (b1, ins) \<Rightarrow>
        let index = findIndex
              (\<lambda>input. (case el of None \<Rightarrow> False
                         | Some e \<Rightarrow> input = e \<or> contains D input e)) ins
        in if index \<noteq> - 1 then b1\<lparr>inputIndex := index\<rparr> else b1)"

definition firstInput :: "dom \<Rightarrow> block \<Rightarrow> block \<times> element option" where
  "firstInput D b = (case inputs D b of (b1, ins) \<Rightarrow> (b1, js_index ins 0))"

definition lastInput :: "dom \<Rightarrow> block \<Rightarrow> block \<times> element option" where
  "lastInput D b = (case inputs D b of (b1, ins) \<Rightarrow> (b1, js_index ins (int (length ins) - 1)))"

definition nextInput :: "dom \<Rightarrow> block \<Rightarrow> block \<times> element option" where
  "nextInput D b = (case inputs D b of (b1, ins) \<Rightarrow> (b1, js_index ins (inputIndex b1 + 1)))"

definition previousInput :: "dom \<Rightarrow> block \<Rightarrow> block \<times> element option" where
  "previousInput D b = (case inputs D b of (b1, ins) \<Rightarrow> (b1, js_index ins (inputIndex b1 - 1)))"

definition updateCurrentInput :: "dom \<Rightarrow> block \<Rightarrow> block" where
  "updateCurrentInput D b =
     set_currentInput D
       (if (case activeElement D of None \<Rightarrow> False | Some a \<Rightarrow> isNativeInput D a)
           \<or> anchorNode D = None
        then activeElement D else anchorNode D) b"

definition handleFocus :: "dom \<Rightarrow> block \<Rightarrow> block" where
  "handleFocus D b = updateCurrentInput D (b\<lparr>cachedInputs := []\<rparr>)"

subsection \<open>Calling the tool, mutation detection\<close>

text \<open>
  \<^verbatim>\<open>call(methodName, params)\<close>. A call of a hook that returns nothing to the unit
  is recorded on the trace as \<open>ToolMethod\<close>.
\<close>

definition call :: "string \<Rightarrow> jsval option \<Rightarrow> block \<Rightarrow> world \<Rightarrow> world" where
  "call methodName params b w =
     (case tool_methods (toolInstance b) methodName of
        None \<Rightarrow> w
      | Some hook \<Rightarrow>
          let w1 = (if methodName = ''appendCallback''
                    then log (''`appendCallback` hook is deprecated and will be removed in the next major release. ''
                              @ ''Use `rendered` hook instead'') ''warn'' NoArg w
                    else w);
              w2 = record_event (ToolMethod methodName) w1
          in (case hook params of
                None \<Rightarrow> w2
              | Some e \<Rightarrow>
                  log (''Error during '' @ [CHR 0x27] @ methodName @ [CHR 0x27] @ '' call: '' @ message e)
                    ''error'' NoArg w2))"

text \<open>\<^verbatim>\<open>emit(eventName, this)\<close> of the events dispatcher the class extends.\<close>

definition emit :: "string \<Rightarrow> world \<Rightarrow> world" where
  "emit eventName w = record_event (Emit eventName) w"

record mutation_record =
  addedNodes :: "node list"
  removedNodes :: "node list"

definition shouldFireUpdate :: "mutation_record list \<Rightarrow> bool" where
  "shouldFireUpdate mutations =
     (\<not> list_ex (\<lambda>m. list_ex (\<lambda>n. isElement n \<and> dataset_get n ''mutationFree'' = Some ''true'')
                          (addedNodes m @ removedNodes m)) mutations)"

text \<open>The body of the debounced handler \<^verbatim>\<open>didMutated\<close>, run on one batch of records.\<close>

definition didMutated :: "dom \<Rightarrow> mutation_record list \<Rightarrow> block \<Rightarrow> world \<Rightarrow> block \<times> world" where
  "didMutated D mutations b w =
     (if \<not> shouldFireUpdate mutations then (b, w)
      else
        let b1 = b\<lparr>cachedInputs := []\<rparr>;
            b2 = updateCurrentInput D b1;
            w1 = call ''updated'' None b2 w;
            w2 = emit ''didMutated'' w1
        in (b2, w2))"

subsection \<open>Saving, validating, merging, destroying\<close>

text \<open>
  The getter \<^verbatim>\<open>pluginsContent\<close>: inside the element of class \<^verbatim>\<open>ce-block__content\<close>,
  the children are visited from the last but one down to the first, and the first
  that is no extension node is the tool's content; \<open>None\<close> is \<^verbatim>\<open>null\<close>.
\<close>

definition pluginsContent :: "dom \<Rightarrow> block \<Rightarrow> node option" where
  "pluginsContent D b =
     (case querySelector ''ce-block__content'' (holder b) of
        None \<Rightarrow> None
      | Some blockContentNodes \<Rightarrow>
          if length (childNodes blockContentNodes) \<noteq> 0
          then List.find (\<lambda>contentNode. \<not> isExtensionNode D contentNode)
                 (rev (butlast (childNodes blockContentNodes)))
          else None)"

text \<open>
  The loop of \<^verbatim>\<open>save\<close> over the entries of the user tunes followed by those of the
  internal tunes; \<open>a\<close> is the object \<^verbatim>\<open>tunesData\<close> refers to.
\<close>

fun saveTunes :: "(string \<times> tune_instance) list \<Rightarrow> addr \<Rightarrow> world \<Rightarrow> world" where
  "saveTunes [] a w = w"
| "saveTunes ((name, tune) # rest) a w =
     (case tune_save tune of
        None \<Rightarrow> saveTunes rest a w
      | Some hook \<Rightarrow>
          (case hook () of
             Inr v \<Rightarrow> saveTunes rest a (obj_set a name v w)
           | Inl e \<Rightarrow>
               saveTunes rest a
                 (log (''Tune '' @ constructor_name tune @ '' save method throws an Error %o'')
                    ''warn'' (ErrArg e) w)))"

text \<open>\<^verbatim>\<open>Promise.resolve(v)\<close> of a value that was already awaited is fulfilled with it.\<close>

definition promise_resolve :: "'a \<Rightarrow> error + 'a" where
  "promise_resolve v = Inr v"

text \<open>
  \<^verbatim>\<open>save()\<close>. The two readings of \<^verbatim>\<open>window.performance.now()\<close> are arguments. The
  promise of the async function rejects (\<open>Inl\<close>) or resolves with the saved data or
  with nothing (\<open>Inr None\<close>).
\<close>

definition save ::
  "dom \<Rightarrow> int \<Rightarrow> int \<Rightarrow> block \<Rightarrow> world \<Rightarrow> world \<times> (error + saved_data option)" where
  "save D measuringStart measuringEnd b w =
     (case tool_save (toolInstance b) (pluginsContent D b) of
        Inl e \<Rightarrow> (w, Inl e)
      | Inr extractedBlock \<Rightarrow>
          let tunesData = unavailableTunesData b;
              w1 = saveTunes (tunesInstances b @ defaultTunesInstances b) tunesData w
          in (case promise_resolve extractedBlock of
                Inr finishedExtraction \<Rightarrow>
                  (w1, Inr (Some \<lparr>saved_id = block_id b, saved_tool = block_name b,
                                  saved_data = finishedExtraction, saved_tunes = tunesData,
                                  saved_time = measuringEnd - measuringStart\<rparr>))
              | Inl error \<Rightarrow>
                  (log (''Saving proccess for '' @ block_name b @ '' tool failed due to the ''
                        @ error_toString error) ''log'' (StrArg ''red'') w1,
                   Inr None)))"

definition validate :: "jsval \<Rightarrow> block \<Rightarrow> world \<Rightarrow> world \<times> (error + bool)" where
  "validate data b w =
     (let isValid = True in
      case tool_validate (toolInstance b) of
        None \<Rightarrow> (w, Inr isValid)
      | Some hook \<Rightarrow>
          (case hook data of Inl e \<Rightarrow> (w, Inl e) | Inr v \<Rightarrow> (w, Inr v)))"

definition mergeWith :: "jsval \<Rightarrow> block \<Rightarrow> world \<Rightarrow> world \<times> (error + unit)" where
  "mergeWith data b w =
     (case tool_merge (toolInstance b) of
        None \<Rightarrow> (w, Inl (TypeError ''this.toolInstance.merge is not a function''))
      | Some hook \<Rightarrow>
          (case hook data of
             Some e \<Rightarrow> (record_event (ToolMethod ''merge'') w, Inl e)
           | None \<Rightarrow> (record_event (ToolMethod ''merge'') w, Inr ())))"

definition destroy :: "block \<Rightarrow> world \<Rightarrow> world \<times> (error + unit)" where
  "destroy b w =
     (let w1 = record_event DispatcherDestroy w in
      case tool_destroy (toolInstance b) of
        None \<Rightarrow> (w1, Inr ())
      | Some hook \<Rightarrow>
          (case hook () of
             Some e \<Rightarrow> (record_event (ToolMethod ''destroy'') w1, Inl e)
           | None \<Rightarrow> (record_event (ToolMethod ''destroy'') w1, Inr ())))"

subsection \<open>Composition\<close>

text \<open>The loop of \<^verbatim>\<open>compose\<close> over the tune instances, threading \<^verbatim>\<open>wrappedContentNode\<close>.\<close>

fun wrapTunes :: "tune_instance list \<Rightarrow> node \<Rightarrow> world \<Rightarrow> node \<times> world" where
  "wrapTunes [] wrappedContentNode w = (wrappedContentNode, w)"
| "wrapTunes (tune # rest) wrappedContentNode w =
     (case tune_wrap tune of
        None \<Rightarrow> wrapTunes rest wrappedContentNode w
      | Some hook \<Rightarrow>
          (case hook wrappedContentNode of
             Inr wrapped \<Rightarrow> wrapTunes rest wrapped w
           | Inl e \<Rightarrow>
               wrapTunes rest wrappedContentNode
                 (log (''Tune '' @ constructor_name tune @ '' wrap method throws an Error %o'')
                    ''warn'' (ErrArg e) w)))"

text \<open>
  \<^verbatim>\<open>addTool(tool)\<close>: a tool without toolbox settings is skipped, one without an icon
  is skipped with a warning. The button is appended to the toolbox twice in the
  source; the second call moves the same node, so the toolbox gets one child.
\<close>

definition addTool :: "api \<Rightarrow> block_tool \<Rightarrow> block \<Rightarrow> world \<Rightarrow> block \<times> world" where
  "addTool A tool b w =
     (case toolbox tool of
        None \<Rightarrow> (b, w)
      | Some toolToolboxSettings \<Rightarrow>
          if \<not> truthy (icon toolToolboxSettings)
          then (b, log ''Toolbar icon is missed. Tool %o skipped'' ''warn'' (StrArg (tool_name tool)) w)
          else
            let span = Element ''span'' [''ce-toolbox-add1__span''] [] []
                         [Html (i18n_t A (if truthy (title toolToolboxSettings)
                                          then the (title toolToolboxSettings) else tool_name tool))];
                button = Element ''li'' [''ce-toolbox-add1__button''] [] [(''tool'', tool_name tool)]
                           [Html (the (icon toolToolboxSettings)), span]
            in (b\<lparr>nodes_toolbox := appendChild (nodes_toolbox b) button,
                   nodes_buttons := nodes_buttons b @ [button],
                   displayedToolsCount := displayedToolsCount b + 1\<rparr>, w))"

fun addTools :: "api \<Rightarrow> block_tool list \<Rightarrow> block \<Rightarrow> world \<Rightarrow> block \<times> world" where
  "addTools A [] b w = (b, w)"
| "addTools A (tool # tools) b w = (case addTool A tool b w of (b1, w1) \<Rightarrow> addTools A tools b1 w1)"

text \<open>
  \<^verbatim>\<open>compose()\<close>: returns the unit with its toolbox filled and the wrapper element.
  Event listeners are not part of the tree.
\<close>

definition compose :: "api \<Rightarrow> block \<Rightarrow> world \<Rightarrow> (block \<times> node) \<times> world" where
  "compose A b w =
     (let wrapper = dom_make ''div'' [''ce-block''];
          contentNode = dom_make ''div'' [''ce-block__content''];
          add = dom_make ''div'' [''ce-block__add''];
          pluginsContent = tool_render (toolInstance b);
          dnd = dom_make ''div'' [''ce-block__content--dnd''];
          settings = dom_make ''div'' [''ce-block__content--settings''];
          svgDrag = svg A ''drag'' 13 13;
          svgAdd = svg A ''intermediate_plus'' 13 13;
          svgSettings = svg A ''settings'' 13 13;
          dnd = setAttribute (appendChild dnd svgDrag) ''draggable'' ''true'';
          add = appendChild add svgAdd;
          settings = appendChild settings svgSettings;
          b1 = b\<lparr>nodes_toolbox := dom_make ''div'' [''ce-toolbox-add1'']\<rparr>
      in case addTools A (blockTools A) b1 w of (b2, w1) \<Rightarrow>
         let add = appendChild add (nodes_toolbox b2);
             contentNode = appendChild (appendChild (appendChild contentNode dnd) pluginsContent) settings
         in case wrapTunes (map snd (tunesInstances b2) @ map snd (defaultTunesInstances b2))
                   contentNode w1 of
              (wrappedContentNode, w2) \<Rightarrow>
                ((b2, appendChild (appendChild wrapper wrappedContentNode) add), w2))"

text \<open>
  \<^verbatim>\<open>composeTunes(tunesData)\<close>: every tune of the tool is instantiated into the
  internal or the user collection; then the entries of \<^verbatim>\<open>tunesData\<close> whose name is
  no key of the user collection are written into the object of unavailable data.
\<close>

definition composeTunes :: "tune list \<Rightarrow> (string \<times> jsval) list \<Rightarrow> block \<Rightarrow> world \<Rightarrow> block \<times> world" where
  "composeTunes tunes tunesData b w =
     (let b1 = foldl (\<lambda>b tune.
                  let inst = tune_create tune (js_get tunesData (tune_name tune)) in
                  if isInternal tune
                  then b\<lparr>defaultTunesInstances := map_set (tune_name tune) inst (defaultTunesInstances b)\<rparr>
                  else b\<lparr>tunesInstances := map_set (tune_name tune) inst (tunesInstances b)\<rparr>)
                b tunes;
          w1 = foldl (\<lambda>w (name, data).
                  if \<not> map_has name (tunesInstances b1)
                  then obj_set (unavailableTunesData b1) name data w else w)
                w tunesData
      in (b1, w1))"

text \<open>
  The constructor. \<^verbatim>\<open>id\<close> is optional and \<^verbatim>\<open>generated\<close> is what
  \<^verbatim>\<open>_.generateBlockId()\<close> would return. Instantiating and rendering the tool and
  the tunes is taken to succeed: a throw there leaves no unit.
\<close>

record block_options =
  opt_id :: "string option"
  opt_data :: jsval
  opt_tool :: block_tool
  opt_readOnly :: bool
  opt_tunesData :: "(string \<times> jsval) list"
  opt_canBeRemoved :: bool
  opt_canBeEdited :: bool

definition new_block :: "api \<Rightarrow> string \<Rightarrow> block_options \<Rightarrow> world \<Rightarrow> block \<times> world" where
  "new_block A generated opts w =
     (case alloc w of (a, w0) \<Rightarrow>
        let b0 = \<lparr>block_id = (case opt_id opts of None \<Rightarrow> generated | Some i \<Rightarrow> i),
                  block_name = tool_name (opt_tool opts),
                  holder = dom_make ''div'' [],
                  toolInstance = tool_create (opt_tool opts) (opt_data opts) (opt_readOnly opts),
                  tunesInstances = [],
                  defaultTunesInstances = [],
                  unavailableTunesData = a,
                  cachedInputs = [],
                  inputIndex = 0,
                  nodes_toolbox = dom_make ''div'' [],
                  nodes_buttons = [],
                  displayedToolsCount = 0,
                  canBeRemoved = opt_canBeRemoved opts,
                  canBeEdited = opt_canBeEdited opts,
                  opened = False\<rparr>
        in case composeTunes (tool_tunes (opt_tool opts)) (opt_tunesData opts) b0 w0 of
             (b1, w1) \<Rightarrow>
               (case compose A b1 w1 of ((b2, h), w2) \<Rightarrow> (b2\<lparr>holder := h\<rparr>, w2)))"

section \<open>The read-only coordinator (modules/removeble.ts)\<close>

text \<open>
  A module of the editor as the coordinator sees it in \<^verbatim>\<open>for (const name in this.Editor)\<close>:
  its name and its optional \<^verbatim>\<open>toggleReadOnly\<close> hook. A hook either returns
  (\<open>None\<close>) or throws (\<open>Some e\<close>).
\<close>

record editor_module =
  moduleName :: string
  toggleReadOnly :: "(bool \<Rightarrow> error option) option"

text \<open>
  The collaborators reached through \<^verbatim>\<open>this.Editor\<close>: the modules in enumeration
  order, \<^verbatim>\<open>Saver.save()\<close> (resolves with the blocks or rejects),
  \<^verbatim>\<open>BlockManager.clear()\<close> and \<^verbatim>\<open>Renderer.render(blocks)\<close>.
\<close>

record editor =
  modules :: "editor_module list"
  saver_save :: "error + jsval list"
  blockManager_clear :: "error option"
  renderer_render :: "jsval list \<Rightarrow> error option"

record removeble =
  toolsDontSupportReadOnly :: "string list"
  removebleEnabled :: bool

definition isEnabled :: "removeble \<Rightarrow> bool" where
  "isEnabled r = removebleEnabled r"

definition criticalMessage :: "string list \<Rightarrow> string" where
  "criticalMessage tools =
     ''To enable read-only mode all connected tools should support it. Tools ''
     @ join '', '' tools
     @ '' don'' @ [CHR 0x27] @ ''t support read-only mode.''"

definition throwCriticalError :: "removeble \<Rightarrow> error" where
  "throwCriticalError r = CriticalError (criticalMessage (toolsDontSupportReadOnly r))"

text \<open>
  The loop over the modules: a module without the hook is skipped, a hook that
  throws ends the loop (nothing catches it).
\<close>

fun toggleModules :: "editor_module list \<Rightarrow> bool \<Rightarrow> event list \<Rightarrow> event list \<times> error option" where
  "toggleModules [] state tr = (tr, None)"
| "toggleModules (m # ms) state tr =
     (case toggleReadOnly m of
        None \<Rightarrow> toggleModules ms state tr
      | Some hook \<Rightarrow>
          (case hook state of
             Some e \<Rightarrow> (tr @ [ToggleReadOnly (moduleName m) state], Some e)
           | None \<Rightarrow> toggleModules ms state (tr @ [ToggleReadOnly (moduleName m) state])))"

text \<open>
  \<^verbatim>\<open>toggle(state = !this.removebleEnabled)\<close>: the argument is optional
  (\<open>None\<close> is \<^verbatim>\<open>undefined\<close>). The result is the coordinator afterwards, the
  trace afterwards, and what the returned promise settles to.
\<close>

definition toggle ::
  "editor \<Rightarrow> bool option \<Rightarrow> removeble \<Rightarrow> event list \<Rightarrow> removeble \<times> event list \<times> (error + bool)" where
  "toggle E target r tr =
     (let state = (case target of None \<Rightarrow> \<not> removebleEnabled r | Some s \<Rightarrow> s) in
      if state \<and> length (toolsDontSupportReadOnly r) > 0
      then (r, tr, Inl (throwCriticalError r))
      else
        let oldState = removebleEnabled r;
            r1 = r\<lparr>removebleEnabled := state\<rparr>;
            (tr1, thrown) = toggleModules (modules E) state tr
        in case thrown of
             Some e \<Rightarrow> (r1, tr1, Inl e)
           | None \<Rightarrow>
               if oldState = state then (r1, tr1, Inr (removebleEnabled r1))
               else
                 (case saver_save E of
                    Inl e \<Rightarrow> (r1, tr1 @ [SaverSave], Inl e)
                  | Inr blocks \<Rightarrow>
                      (case blockManager_clear E of
                         Some e \<Rightarrow> (r1, tr1 @ [SaverSave, BlockManagerClear], Inl e)
                       | None \<Rightarrow>
                           (case renderer_render E blocks of
                              Some e \<Rightarrow>
                                (r1, tr1 @ [SaverSave, BlockManagerClear, RendererRender blocks], Inl e)
                            | None \<Rightarrow>
                                (r1, tr1 @ [SaverSave, BlockManagerClear, RendererRender blocks],
                                 Inr (removebleEnabled r1))))))"

text \<open>
  \<^verbatim>\<open>prepare()\<close>: the tools that do not support read-only are collected from
  \<^verbatim>\<open>blockTools.entries()\<close>; \<^verbatim>\<open>config.readOnly\<close> may be absent. The call of
  \<^verbatim>\<open>toggle\<close> is not awaited, so what its promise settles to is dropped.
\<close>

definition prepare ::
  "editor \<Rightarrow> (string \<times> block_tool) list \<Rightarrow> bool option \<Rightarrow> removeble \<Rightarrow> event list
     \<Rightarrow> removeble \<times> event list \<times> (error + unit)" where
  "prepare E entries config_readOnly r tr =
     (let tools = map fst (filter (\<lambda>(name, tool). \<not> isReadOnlySupported tool) entries);
          r1 = r\<lparr>toolsDontSupportReadOnly := tools\<rparr>
      in if config_readOnly = Some True \<and> length tools > 0
         then (r1, tr, Inl (throwCriticalError r1))
         else (case toggle E config_readOnly r1 tr of (r2, tr2, _) \<Rightarrow> (r2, tr2, Inr ())))"

text \<open>The state of a coordinator object before \<^verbatim>\<open>prepare\<close>.\<close>

definition new_removeble :: removeble where
  "new_removeble = \<lparr>toolsDontSupportReadOnly = [], removebleEnabled = False\<rparr>"


section \<open>Reference descriptions\<close>

text \<open>
  Composition as a left fold: one step applies the \<^verbatim>\<open>wrap\<close> hook of a tune to the
  node reached so far; a tune without the hook, or whose hook throws, leaves the node.
\<close>

definition wrap_step :: "node \<Rightarrow> tune_instance \<Rightarrow> node" where
  "wrap_step n t =
     (case tune_wrap t of
        None \<Rightarrow> n
      | Some hook \<Rightarrow> (case hook n of Inr wrapped \<Rightarrow> wrapped | Inl e \<Rightarrow> n))"

text \<open>
  What the \<^verbatim>\<open>save\<close> hooks of a sequence of tune entries contribute: the payload of
  each hook that returns, under the tune's name, a later entry overriding an earlier
  one of the same name.
\<close>

fun tune_payloads :: "(string \<times> tune_instance) list \<Rightarrow> (string \<rightharpoonup> jsval)" where
  "tune_payloads [] = Map.empty"
| "tune_payloads ((name, tune) # rest) =
     (case tune_save tune of
        None \<Rightarrow> Map.empty
      | Some hook \<Rightarrow> (case hook () of Inr v \<Rightarrow> [name \<mapsto> v] | Inl e \<Rightarrow> Map.empty))
     ++ tune_payloads rest"

text \<open>
  The same contributions as the list of assignments the loop makes, in order, and
  the object that results from making a list of assignments one after the other.
\<close>

fun payload_entries :: "(string \<times> tune_instance) list \<Rightarrow> (string \<times> jsval) list" where
  "payload_entries [] = []"
| "payload_entries ((name, tune) # rest) =
     (case tune_save tune of
        None \<Rightarrow> []
      | Some hook \<Rightarrow> (case hook () of Inr v \<Rightarrow> [(name, v)] | Inl e \<Rightarrow> []))
     @ payload_entries rest"

definition assign_all :: "js_object \<Rightarrow> (string \<times> jsval) list \<Rightarrow> js_object" where
  "assign_all obj kvs = foldl (\<lambda>obj (k, v). obj_assign obj k v) obj kvs"

text \<open>
  The element \<^verbatim>\<open>updateCurrentInput\<close> hands to the setter, and the position the
  setter finds for it in the live list of inputs (-1 when it lies in no input).
\<close>

definition selection_target :: "dom \<Rightarrow> element option" where
  "selection_target D =
     (if (case activeElement D of None \<Rightarrow> False | Some a \<Rightarrow> isNativeInput D a)
         \<or> anchorNode D = None
      then activeElement D else anchorNode D)"

definition focus_index :: "dom \<Rightarrow> int" where
  "focus_index D =
     findIndex (\<lambda>input. (case selection_target D of None \<Rightarrow> False
                          | Some e \<Rightarrow> input = e \<or> contains D input e))
       (findAllInputs D)"

text \<open>
  The states of the index and the cache that the constructor and the unit's own
  operations produce: the index is at least -1; with an empty cache it is at most 0,
  with a filled cache it is below the length of the cache.
\<close>

definition index_tracked :: "block \<Rightarrow> bool" where
  "index_tracked b =
     (- 1 \<le> inputIndex b
      \<and> (if cachedInputs b = [] then inputIndex b \<le> 0
         else inputIndex b < int (length (cachedInputs b))))"

text \<open>
  The content node of a unit as \<^verbatim>\<open>compose\<close> builds it before any tune wraps it: the
  drag handle, the tool's rendered content and the settings trigger.
\<close>

definition content_node :: "api \<Rightarrow> block \<Rightarrow> node" where
  "content_node A b =
     Element ''div'' [''ce-block__content''] [] []
       [Element ''div'' [''ce-block__content--dnd''] [(''draggable'', ''true'')] [] [svg A ''drag'' 13 13],
        tool_render (toolInstance b),
        Element ''div'' [''ce-block__content--settings''] [] [] [svg A ''settings'' 13 13]]"

section \<open>Concrete collaborators\<close>

text \<open>
  A paragraph tool with an internal tune \<^verbatim>\<open>readonly\<close>, a user tune \<^verbatim>\<open>align\<close> that
  saves the data it was created with, and a user tune whose hooks throw; a tool
  instance all of whose hooks fail; and a unit built by the constructor from
  persisted tune data for \<^verbatim>\<open>align\<close> and for a tune \<^verbatim>\<open>gone\<close> that is not loaded.
\<close>

definition paragraph_instance :: tool_instance where
  "paragraph_instance =
     \<lparr>tool_render = Element ''div'' [''ce-paragraph''] [(''contenteditable'', ''true'')] [] [TextNode ''hi''],
      tool_save = (\<lambda>content. Inr (JObj [(''text'', JStr ''hi'')])),
      tool_merge = Some (\<lambda>data. None),
      tool_validate = Some (\<lambda>data. Inr True),
      tool_destroy = Some (\<lambda>u. None),
      tool_methods = (\<lambda>name. if name = ''updated'' then Some (\<lambda>params. None) else None)\<rparr>"

definition faulty_instance :: tool_instance where
  "faulty_instance =
     \<lparr>tool_render = Element ''div'' [''ce-faulty''] [] [] [],
      tool_save = (\<lambda>content. Inl (Error ''extraction failed'')),
      tool_merge = Some (\<lambda>data. Some (Error ''merge failed'')),
      tool_validate = Some (\<lambda>data. Inl (Error ''validate failed'')),
      tool_destroy = Some (\<lambda>u. Some (Error ''destroy failed'')),
      tool_methods = (\<lambda>name. None)\<rparr>"

definition align_tune :: tune where
  "align_tune =
     \<lparr>tune_name = ''align'', isInternal = False,
      tune_create = (\<lambda>data.
        \<lparr>constructor_name = ''AlignTune'',
         tune_save = Some (\<lambda>u. Inr data),
         tune_wrap = Some (\<lambda>n. Inr (Element ''div'' [''align-wrapper''] [] [] [n]))\<rparr>)\<rparr>"

definition broken_tune :: tune where
  "broken_tune =
     \<lparr>tune_name = ''broken'', isInternal = False,
      tune_create = (\<lambda>data.
        \<lparr>constructor_name = ''BrokenTune'',
         tune_save = Some (\<lambda>u. Inl (Error ''tune save failed'')),
         tune_wrap = Some (\<lambda>n. Inl (Error ''tune wrap failed''))\<rparr>)\<rparr>"

definition readonly_tune :: tune where
  "readonly_tune =
     \<lparr>tune_name = ''readonly'', isInternal = True,
      tune_create = (\<lambda>data.
        \<lparr>constructor_name = ''ReadOnlyTune'',
         tune_save = Some (\<lambda>u. Inr (JBool False)),
         tune_wrap = Some (\<lambda>n. Inr (Element ''div'' [''readonly-wrapper''] [] [] [n]))\<rparr>)\<rparr>"

definition paragraph_tool :: block_tool where
  "paragraph_tool =
     \<lparr>tool_name = ''paragraph'',
      tool_create = (\<lambda>data readOnly. paragraph_instance),
      tool_tunes = [readonly_tune, align_tune, broken_tune],
      toolbox = Some \<lparr>icon = Some ''<svg/>'', title = Some ''Text''\<rparr>,
      isReadOnlySupported = True\<rparr>"

definition example_api :: api where
  "example_api =
     \<lparr>blockTools = [paragraph_tool],
      i18n_t = (\<lambda>s. s),
      svg = (\<lambda>name w h. Element ''svg'' [''icon'', ''icon--'' @ name] [] [] [])\<rparr>"

definition example_dom :: dom where
  "example_dom =
     \<lparr>findAllInputs = [10, 11],
      contains = (\<lambda>a b. False),
      activeElement = Some 11,
      isNativeInput = (\<lambda>e. False),
      anchorNode = Some 11,
      isExtensionNode = (\<lambda>n. False)\<rparr>"

definition empty_world :: world where
  "empty_world =
     \<lparr>heap = (\<lambda>a. \<lparr>own_props = Map.empty, prototype_of = ObjectPrototype\<rparr>),
      next_addr = 0, trace = []\<rparr>"

definition example_options :: block_options where
  "example_options =
     \<lparr>opt_id = Some ''b1'',
      opt_data = JObj [(''text'', JStr ''hi'')],
      opt_tool = paragraph_tool,
      opt_readOnly = False,
      opt_tunesData = [(''align'', JObj [(''value'', JStr ''left'')]), (''gone'', JObj [(''x'', JNum 1)])],
      opt_canBeRemoved = True,
      opt_canBeEdited = True\<rparr>"

definition example_block :: block where
  "example_block = fst (new_block example_api ''generated'' example_options empty_world)"

definition example_world :: world where
  "example_world = snd (new_block example_api ''generated'' example_options empty_world)"



text \<open>
  An editor with three modules, two of which have a \<^verbatim>\<open>toggleReadOnly\<close> hook, and
  a save pipeline that returns one block.
\<close>

definition example_editor :: editor where
  "example_editor =
     \<lparr>modules = [\<lparr>moduleName = ''UI'', toggleReadOnly = Some (\<lambda>s. None)\<rparr>,
                 \<lparr>moduleName = ''Saver'', toggleReadOnly = None\<rparr>,
                 \<lparr>moduleName = ''Toolbar'', toggleReadOnly = Some (\<lambda>s. None)\<rparr>],
      saver_save = Inr [JObj [(''type'', JStr ''paragraph'')]],
      blockManager_clear = None,
      renderer_render = (\<lambda>blocks. None)\<rparr>"

definition removeble_XY :: removeble where
  "removeble_XY = \<lparr>toolsDontSupportReadOnly = [''X'', ''Y''], removebleEnabled = False\<rparr>"

definition removeble_on :: removeble where
  "removeble_on = \<lparr>toolsDontSupportReadOnly = [], removebleEnabled = True\<rparr>"

text \<open>
  Nodes and batches of mutation records: a fake cursor marked mutation-free, a plain
  paragraph, a batch with both, and a batch with the paragraph only.
\<close>

definition fake_cursor :: node where
  "fake_cursor = Element ''span'' [''codex-editor__fake-cursor''] [] [(''mutationFree'', ''true'')] []"

definition new_paragraph :: node where
  "new_paragraph = Element ''p'' [] [] [] [TextNode ''typed'']"

definition mixed_batch :: "mutation_record list" where
  "mixed_batch = [\<lparr>addedNodes = [new_paragraph], removedNodes = [fake_cursor]\<rparr>]"

definition typing_batch :: "mutation_record list" where
  "typing_batch = [\<lparr>addedNodes = [new_paragraph], removedNodes = []\<rparr>]"

text \<open>Options for a unit whose tunes all wrap: the internal tune and the user tune \<^verbatim>\<open>align\<close>.\<close>

definition wrapping_options :: block_options where
  "wrapping_options =
     example_options\<lparr>opt_tool := paragraph_tool\<lparr>tool_tunes := [readonly_tune, align_tune]\<rparr>\<rparr>"

text \<open>
  Documents for a unit that loses inputs: three inputs with the focus in the last;
  then two inputs left with the focus in the first; two left with no focus; none left.
\<close>

definition three_inputs_dom :: dom where
  "three_inputs_dom =
     example_dom\<lparr>findAllInputs := [10, 11, 12], activeElement := Some 12, anchorNode := Some 12\<rparr>"

definition shrunk_focused_dom :: dom where
  "shrunk_focused_dom =
     example_dom\<lparr>findAllInputs := [10, 11], activeElement := Some 10, anchorNode := Some 10\<rparr>"

definition shrunk_unfocused_dom :: dom where
  "shrunk_unfocused_dom =
     example_dom\<lparr>findAllInputs := [10, 11], activeElement := None, anchorNode := None\<rparr>"

definition emptied_dom :: dom where
  "emptied_dom = example_dom\<lparr>findAllInputs := [], activeElement := None, anchorNode := None\<rparr>"

text \<open>
  Options with persisted data under the name \<^verbatim>\<open>__proto__\<close>, as
  \<^verbatim>\<open>JSON.parse('{"__proto__": {"x": 1}}')\<close> gives it; and options for a tool whose only
  tune is internal, has persisted data, and throws on save.
\<close>

definition proto_options :: block_options where
  "proto_options = example_options\<lparr>opt_tunesData := [(''__proto__'', JObj [(''x'', JNum 1)])]\<rparr>"

definition internal_broken_options :: block_options where
  "internal_broken_options =
     example_options
       \<lparr>opt_tool := paragraph_tool\<lparr>tool_tunes := [broken_tune\<lparr>isInternal := True\<rparr>]\<rparr>,
        opt_tunesData := [(''broken'', JObj [(''x'', JNum 1)])]\<rparr>"

section \<open>Properties of the read-only coordinator\<close>

lemma sublist_inside: "sublist n ys \<Longrightarrow> sublist n (ps @ ys @ ss)"
proof -
  assume "sublist n ys"
  then obtain p q where "ys = p @ n @ q" by (auto simp: sublist_def)
  then have "ps @ ys @ ss = (ps @ p) @ n @ (q @ ss)" by simp
  then show ?thesis unfolding sublist_def by blast
qed

lemma sublist_join: "n \<in> set xs \<Longrightarrow> sublist n (join sep xs)"
proof (induction sep xs rule: join.induct)
  case (1 sep)
  then show ?case by simp
next
  case (2 sep x)
  then show ?case by simp
next
  case (3 sep x y ys)
  show ?case
  proof (cases "n = x")
    case True
    then show ?thesis by simp
  next
    case False
    with 3 have "sublist n (join sep (y # ys))" by simp
    then have "sublist n ((x @ sep) @ join sep (y # ys) @ [])" by (rule sublist_inside)
    then show ?thesis by simp
  qed
qed

lemma sublist_criticalMessage: "n \<in> set tools \<Longrightarrow> sublist n (criticalMessage tools)"
  unfolding criticalMessage_def by (rule sublist_inside) (rule sublist_join)

lemma toggleModules_no_throw:
  "\<forall>m \<in> set ms. \<forall>h. toggleReadOnly m = Some h \<longrightarrow> h s = None \<Longrightarrow>
   toggleModules ms s tr =
     (tr @ map (\<lambda>m. ToggleReadOnly (moduleName m) s) (filter (\<lambda>m. toggleReadOnly m \<noteq> None) ms), None)"
  by (induction ms arbitrary: tr) (auto split: option.splits)

text \<open>
  Claim C4. When the target state is enabled (given, or the negation of a disabled
  state) and the list of tools without read-only support is not empty, \<open>toggle\<close>
  rejects with a critical error before it touches anything: the coordinator and the
  trace are the ones it was called with, so \<open>isEnabled\<close> is unchanged and no hook was
  called; and each tool of the list occurs in the message of the error.
\<close>

theorem toggle_enable_unsupported_fails:
  assumes "toolsDontSupportReadOnly r \<noteq> []"
    and "target = Some True \<or> (target = None \<and> \<not> removebleEnabled r)"
  shows "toggle E target r tr =
           (r, tr, Inl (CriticalError (criticalMessage (toolsDontSupportReadOnly r))))
         \<and> isEnabled (fst (toggle E target r tr)) = isEnabled r
         \<and> (\<forall>n \<in> set (toolsDontSupportReadOnly r).
               sublist n (criticalMessage (toolsDontSupportReadOnly r)))"
  using assms by (auto simp: toggle_def throwCriticalError_def sublist_criticalMessage)

theorem toggle_enable_unsupported_fails_witness:
  "toggle example_editor (Some True) removeble_XY [] =
     (removeble_XY, [],
      Inl (CriticalError (''To enable read-only mode all connected tools should support it. ''
             @ ''Tools X, Y don'' @ [CHR 0x27] @ ''t support read-only mode.'')))
   \<and> isEnabled (fst (toggle example_editor (Some True) removeble_XY [])) = False
   \<and> sublist ''X'' (criticalMessage [''X'', ''Y''])
   \<and> sublist ''Y'' (criticalMessage [''X'', ''Y''])"
  using toggle_enable_unsupported_fails [of removeble_XY "Some True" example_editor "[]"]
  by (simp add: removeble_XY_def criticalMessage_def isEnabled_def)

text \<open>
  Claim C2, as stated, fails: with the coordinator disabled, \<open>toggle\<close> to disabled
  leaves the state and starts no reload, but it has called the \<^verbatim>\<open>toggleReadOnly\<close>
  hook of both modules that have one.
\<close>

theorem toggle_same_state_calls_hooks:
  "toggle example_editor (Some (removebleEnabled new_removeble)) new_removeble [] =
     (new_removeble, [ToggleReadOnly ''UI'' False, ToggleReadOnly ''Toolbar'' False], Inr False)"
  by (simp add: toggle_def example_editor_def new_removeble_def)

text \<open>
  Claim C2, amended. When the target equals the current state (and it is not the
  pair enabled / unsupported tools, which rejects) and no hook throws, \<open>toggle\<close>
  returns that state and leaves the coordinator as it was; the trace grows by exactly
  one \<^verbatim>\<open>toggleReadOnly\<close> call, with that state, for each module that has the hook, in
  module order, and by nothing else: there is no save, clear or render.
\<close>

theorem toggle_same_state:
  assumes "removebleEnabled r = s"
    and "\<not> (s \<and> toolsDontSupportReadOnly r \<noteq> [])"
    and "\<forall>m \<in> set (modules E). \<forall>h. toggleReadOnly m = Some h \<longrightarrow> h s = None"
  shows "toggle E (Some s) r tr =
           (r, tr @ map (\<lambda>m. ToggleReadOnly (moduleName m) s)
                      (filter (\<lambda>m. toggleReadOnly m \<noteq> None) (modules E)),
            Inr s)"
  using assms(1,2) toggleModules_no_throw[OF assms(3), of tr]
  by (auto simp: toggle_def Let_def)

theorem toggle_same_state_witness:
  "toggle example_editor (Some True) removeble_on [SaverSave] =
     (removeble_on, [SaverSave, ToggleReadOnly ''UI'' True, ToggleReadOnly ''Toolbar'' True], Inr True)"
  using toggle_same_state [of removeble_on True example_editor "[SaverSave]"]
  by (simp add: removeble_on_def example_editor_def)

section \<open>Properties of the editable unit\<close>

subsection \<open>The concrete unit\<close>

lemma example_new_block:
  "new_block example_api ''generated'' example_options empty_world = (B, W) \<Longrightarrow>
     toolInstance B = paragraph_instance
   \<and> tunesInstances B =
       [(''align'', tune_create align_tune (JObj [(''value'', JStr ''left'')])),
        (''broken'', tune_create broken_tune JUndefined)]
   \<and> defaultTunesInstances B = [(''readonly'', tune_create readonly_tune JUndefined)]
   \<and> unavailableTunesData B = 0
   \<and> cachedInputs B = [] \<and> inputIndex B = 0
   \<and> block_id B = ''b1'' \<and> block_name B = ''paragraph''
   \<and> heap W 0 = \<lparr>own_props = [''gone'' \<mapsto> JObj [(''x'', JNum 1)]], prototype_of = ObjectPrototype\<rparr>
   \<and> trace W = [Log ''Tune BrokenTune wrap method throws an Error %o'' ''warn''
                   (ErrArg (Error ''tune wrap failed''))]"
  by (auto simp add: new_block_def alloc_def example_options_def empty_world_def
     composeTunes_def compose_def paragraph_tool_def align_tune_def broken_tune_def readonly_tune_def
     js_get_def object_prototype_members_def map_has_def obj_set_def obj_assign_def example_api_def addTool_def truthy_def dom_make_def log_def
     paragraph_instance_def Let_def)

lemma example_unit:
  "toolInstance example_block = paragraph_instance"
  "tunesInstances example_block =
       [(''align'', tune_create align_tune (JObj [(''value'', JStr ''left'')])),
        (''broken'', tune_create broken_tune JUndefined)]"
  "defaultTunesInstances example_block = [(''readonly'', tune_create readonly_tune JUndefined)]"
  "unavailableTunesData example_block = 0"
  "cachedInputs example_block = []"
  "inputIndex example_block = 0"
  "block_id example_block = ''b1''"
  "block_name example_block = ''paragraph''"
  "heap example_world 0 =
     \<lparr>own_props = [''gone'' \<mapsto> JObj [(''x'', JNum 1)]], prototype_of = ObjectPrototype\<rparr>"
  "trace example_world = [Log ''Tune BrokenTune wrap method throws an Error %o'' ''warn''
                   (ErrArg (Error ''tune wrap failed''))]"
  using example_new_block [of example_block example_world]
  by (simp_all add: example_block_def example_world_def)

subsection \<open>Input discovery\<close>

lemma inputs_empty_cache:
  "cachedInputs b = [] \<Longrightarrow>
   inputs D b =
     ((if inputIndex b > int (length (findAllInputs D)) - 1
       then b\<lparr>inputIndex := int (length (findAllInputs D)) - 1\<rparr> else b)
        \<lparr>cachedInputs := findAllInputs D\<rparr>, findAllInputs D)"
  by (simp add: inputs_def Let_def)

lemma inputs_filled_cache: "cachedInputs b \<noteq> [] \<Longrightarrow> inputs D b = (b, cachedInputs b)"
  by (simp add: inputs_def)

lemma js_index_last: "xs \<noteq> [] \<Longrightarrow> js_index xs (int (length xs) - 1) = Some (last xs)"
  by (cases xs rule: rev_cases) (auto simp: js_index_def nth_append)

lemma findIndex_range:
  "findIndex p xs = - 1 \<or> (0 \<le> findIndex p xs \<and> findIndex p xs < int (length xs))"
  by (induction xs) (auto simp: Let_def)

lemma updateCurrentInput_target:
  "updateCurrentInput D b = set_currentInput D (selection_target D) b"
  by (simp add: updateCurrentInput_def selection_target_def)

lemma set_currentInput_empty_cache:
  "cachedInputs b = [] \<Longrightarrow>
   cachedInputs (set_currentInput D (selection_target D) b) = findAllInputs D
   \<and> inputIndex (set_currentInput D (selection_target D) b) =
       (if focus_index D \<noteq> - 1 then focus_index D
        else if inputIndex b > int (length (findAllInputs D)) - 1
             then int (length (findAllInputs D)) - 1 else inputIndex b)"
  by (simp add: set_currentInput_def inputs_empty_cache focus_index_def Let_def)

lemma handleFocus_fields:
  "cachedInputs (handleFocus D b) = findAllInputs D"
  "inputIndex (handleFocus D b) =
       (if focus_index D \<noteq> - 1 then focus_index D
        else if inputIndex b > int (length (findAllInputs D)) - 1
             then int (length (findAllInputs D)) - 1 else inputIndex b)"
  using set_currentInput_empty_cache [of "b\<lparr>cachedInputs := []\<rparr>" D]
  by (simp_all add: handleFocus_def updateCurrentInput_target)

lemma focus_index_range:
  "focus_index D = - 1 \<or> (0 \<le> focus_index D \<and> focus_index D < int (length (findAllInputs D)))"
  unfolding focus_index_def by (rule findIndex_range)

text \<open>The constructor establishes \<open>index_tracked\<close>, and the operations keep it.\<close>

lemma index_tracked_inputs: "index_tracked b \<Longrightarrow> index_tracked (fst (inputs D b))"
  by (auto simp: index_tracked_def inputs_def Let_def split: if_splits)

lemma index_tracked_currentInput: "index_tracked b \<Longrightarrow> index_tracked (fst (currentInput D b))"
  using index_tracked_inputs [of b D] by (cases "inputs D b") (simp add: currentInput_def)

lemma index_tracked_set_currentInput:
  assumes "index_tracked b"
  shows "index_tracked (set_currentInput D el b)"
proof -
  obtain b1 ins where i: "inputs D b = (b1, ins)" by (cases "inputs D b")
  let ?k = "findIndex (\<lambda>input. (case el of None \<Rightarrow> False
                         | Some e \<Rightarrow> input = e \<or> contains D input e)) ins"
  have b1: "index_tracked b1" using index_tracked_inputs [OF assms, of D] i by simp
  have ins: "ins = cachedInputs b1" using i by (auto simp: inputs_def Let_def split: if_splits)
  have r: "set_currentInput D el b = (if ?k \<noteq> - 1 then b1\<lparr>inputIndex := ?k\<rparr> else b1)"
    using i by (simp add: set_currentInput_def Let_def)
  from findIndex_range [of _ ins] have "?k = - 1 \<or> (0 \<le> ?k \<and> ?k < int (length ins))" .
  with b1 ins show ?thesis unfolding r by (auto simp: index_tracked_def)
qed

lemma index_tracked_handleFocus:
  assumes "index_tracked b"
  shows "index_tracked (handleFocus D b)"
  using assms focus_index_range [of D]
  by (auto simp: index_tracked_def handleFocus_fields)

lemma didMutated_unit:
  "fst (didMutated D muts b w) = (if shouldFireUpdate muts then handleFocus D b else b)"
  by (simp add: didMutated_def handleFocus_def Let_def)

lemma index_tracked_didMutated:
  "index_tracked b \<Longrightarrow> index_tracked (fst (didMutated D muts b w))"
  by (simp add: didMutated_unit index_tracked_handleFocus)

lemma currentInput_filled:
  "cachedInputs b \<noteq> [] \<Longrightarrow> currentInput D b = (b, js_index (cachedInputs b) (inputIndex b))"
  by (simp add: currentInput_def inputs_filled_cache)

text \<open>
  Claim C8, as stated, fails in two ways. A unit as the constructor leaves it tracks
  index 0; when the document has no input, reading \<open>currentInput\<close> gives
  \<^verbatim>\<open>undefined\<close> and leaves the index at -1. And on the path of a real shrink, the
  unit had the focus in the third of three inputs (index 2), the third input went away
  and the focus moved to the first: after the mutation handler, \<open>currentInput\<close> is
  the first input, where the focus is, not the last of the two that are left.
\<close>

theorem currentInput_not_last_input:
  "inputIndex example_block = 0
   \<and> snd (currentInput emptied_dom example_block) = None
   \<and> inputIndex (fst (currentInput emptied_dom example_block)) = - 1
   \<and> inputIndex (handleFocus three_inputs_dom example_block) = 2
   \<and> findAllInputs shrunk_focused_dom = [10, 11]
   \<and> snd (currentInput shrunk_focused_dom
           (fst (didMutated shrunk_focused_dom typing_batch
                   (handleFocus three_inputs_dom example_block) example_world))) = Some 10"
proof -
  have fresh: "cachedInputs example_block = []" "inputIndex example_block = 0"
    by (simp_all add: example_unit)
  have 1: "snd (currentInput emptied_dom example_block) = None
           \<and> inputIndex (fst (currentInput emptied_dom example_block)) = - 1"
    using fresh by (simp add: currentInput_def inputs_empty_cache emptied_dom_def js_index_def)
  have k3: "focus_index three_inputs_dom = 2"
    by (simp add: focus_index_def selection_target_def three_inputs_dom_def example_dom_def)
  have 2: "inputIndex (handleFocus three_inputs_dom example_block) = 2"
    using k3 by (simp add: handleFocus_fields)
  have k2: "focus_index shrunk_focused_dom = 0"
    by (simp add: focus_index_def selection_target_def shrunk_focused_dom_def example_dom_def)
  have live: "findAllInputs shrunk_focused_dom = [10, 11]"
    by (simp add: shrunk_focused_dom_def example_dom_def)
  have fire: "shouldFireUpdate typing_batch"
    by (simp add: shouldFireUpdate_def typing_batch_def new_paragraph_def)
  let ?b = "handleFocus shrunk_focused_dom (handleFocus three_inputs_dom example_block)"
  have "cachedInputs ?b = [10, 11]" and "inputIndex ?b = 0"
    using k2 live by (simp_all add: handleFocus_fields)
  then have "snd (currentInput shrunk_focused_dom ?b) = Some 10"
    by (simp add: currentInput_filled js_index_def)
  then have 3: "snd (currentInput shrunk_focused_dom
           (fst (didMutated shrunk_focused_dom typing_batch
                   (handleFocus three_inputs_dom example_block) example_world))) = Some 10"
    using fire by (simp add: didMutated_unit)
  from fresh 1 2 live 3 show ?thesis by simp
qed

text \<open>
  Claim C8, amended. \<open>currentInput\<close> is a total function with no error result. Take
  a unit in a state its operations produce, whose tracked index lies beyond the live
  list of inputs. The handler that recomputes the list (the focus handler, and the
  mutation handler on a batch it does not ignore, which leaves the same unit) keeps
  such a state, and afterwards: if no input is left, the index is -1 and
  \<open>currentInput\<close> is \<^verbatim>\<open>undefined\<close>; if inputs are left and the focus or selection
  lies in none of them, the index is the last position and \<open>currentInput\<close> is the
  last input; if it lies in one of them, the index is the position of that input and
  \<open>currentInput\<close> is that input.
\<close>

theorem currentInput_after_handler:
  assumes "index_tracked b"
    and "inputIndex b > int (length (findAllInputs D)) - 1"
  shows "index_tracked (handleFocus D b)
       \<and> (shouldFireUpdate muts \<longrightarrow> fst (didMutated D muts b w) = handleFocus D b)
       \<and> (findAllInputs D = [] \<longrightarrow>
            snd (currentInput D (handleFocus D b)) = None
            \<and> inputIndex (fst (currentInput D (handleFocus D b))) = - 1)
       \<and> (findAllInputs D \<noteq> [] \<and> focus_index D = - 1 \<longrightarrow>
            snd (currentInput D (handleFocus D b)) = Some (last (findAllInputs D))
            \<and> inputIndex (fst (currentInput D (handleFocus D b))) = int (length (findAllInputs D)) - 1)
       \<and> (findAllInputs D \<noteq> [] \<and> focus_index D \<noteq> - 1 \<longrightarrow>
            0 \<le> focus_index D \<and> focus_index D < int (length (findAllInputs D))
            \<and> snd (currentInput D (handleFocus D b)) = Some (findAllInputs D ! nat (focus_index D))
            \<and> inputIndex (fst (currentInput D (handleFocus D b))) = focus_index D)"
proof -
  let ?b = "handleFocus D b"
  let ?ins = "findAllInputs D"
  have inv: "index_tracked ?b" using assms(1) by (rule index_tracked_handleFocus)
  have mut: "fst (didMutated D muts b w) = ?b" if "shouldFireUpdate muts"
    using that by (simp add: didMutated_unit)
  have low: "- 1 \<le> inputIndex b" using assms(1) by (simp add: index_tracked_def)
  have none: "snd (currentInput D ?b) = None \<and> inputIndex (fst (currentInput D ?b)) = - 1"
    if "?ins = []"
  proof -
    from that have "focus_index D = - 1" by (simp add: focus_index_def)
    with that assms(2) have "cachedInputs ?b = []" and "inputIndex ?b = - 1"
      by (simp_all add: handleFocus_fields)
    with that show ?thesis by (simp add: currentInput_def inputs_empty_cache js_index_def)
  qed
  have last: "snd (currentInput D ?b) = Some (last ?ins)
              \<and> inputIndex (fst (currentInput D ?b)) = int (length ?ins) - 1"
    if "?ins \<noteq> []" and "focus_index D = - 1"
  proof -
    from that assms(2) have "cachedInputs ?b = ?ins" and "inputIndex ?b = int (length ?ins) - 1"
      by (simp_all add: handleFocus_fields)
    with that(1) show ?thesis by (simp add: currentInput_filled js_index_last)
  qed
  have focus: "0 \<le> focus_index D \<and> focus_index D < int (length ?ins)
            \<and> snd (currentInput D ?b) = Some (?ins ! nat (focus_index D))
            \<and> inputIndex (fst (currentInput D ?b)) = focus_index D"
    if "?ins \<noteq> []" and "focus_index D \<noteq> - 1"
  proof -
    from that(2) focus_index_range [of D]
    have r: "0 \<le> focus_index D" "focus_index D < int (length ?ins)" by auto
    from that have "cachedInputs ?b = ?ins" and "inputIndex ?b = focus_index D"
      by (simp_all add: handleFocus_fields)
    with that(1) r show ?thesis by (simp add: currentInput_filled js_index_def)
  qed
  from inv mut none last focus show ?thesis by blast
qed

theorem currentInput_after_handler_witness:
  "index_tracked (handleFocus three_inputs_dom example_block)
   \<and> inputIndex (handleFocus three_inputs_dom example_block) = 2
   \<and> fst (didMutated emptied_dom typing_batch (handleFocus three_inputs_dom example_block) example_world)
       = handleFocus emptied_dom (handleFocus three_inputs_dom example_block)
   \<and> snd (currentInput emptied_dom
           (handleFocus emptied_dom (handleFocus three_inputs_dom example_block))) = None
   \<and> inputIndex (fst (currentInput emptied_dom
           (handleFocus emptied_dom (handleFocus three_inputs_dom example_block)))) = - 1
   \<and> snd (currentInput shrunk_unfocused_dom
           (handleFocus shrunk_unfocused_dom (handleFocus three_inputs_dom example_block))) = Some 11
   \<and> inputIndex (fst (currentInput shrunk_unfocused_dom
           (handleFocus shrunk_unfocused_dom (handleFocus three_inputs_dom example_block)))) = 1
   \<and> snd (currentInput shrunk_focused_dom
           (handleFocus shrunk_focused_dom (handleFocus three_inputs_dom example_block))) = Some 10
   \<and> inputIndex (fst (currentInput shrunk_focused_dom
           (handleFocus shrunk_focused_dom (handleFocus three_inputs_dom example_block)))) = 0"
proof -
  let ?b = "handleFocus three_inputs_dom example_block"
  have "index_tracked example_block" by (simp add: index_tracked_def example_unit)
  then have inv: "index_tracked ?b" by (rule index_tracked_handleFocus)
  have k3: "focus_index three_inputs_dom = 2"
    by (simp add: focus_index_def selection_target_def three_inputs_dom_def example_dom_def)
  have idx: "inputIndex ?b = 2" using k3 by (simp add: handleFocus_fields)
  have fire: "shouldFireUpdate typing_batch"
    by (simp add: shouldFireUpdate_def typing_batch_def new_paragraph_def)
  have e: "findAllInputs emptied_dom = []" by (simp add: emptied_dom_def)
  have u: "findAllInputs shrunk_unfocused_dom = [10, 11]" "focus_index shrunk_unfocused_dom = - 1"
    by (simp_all add: focus_index_def selection_target_def shrunk_unfocused_dom_def example_dom_def)
  have f: "findAllInputs shrunk_focused_dom = [10, 11]" "focus_index shrunk_focused_dom = 0"
    by (simp_all add: focus_index_def selection_target_def shrunk_focused_dom_def example_dom_def)
  have be: "inputIndex ?b > int (length (findAllInputs emptied_dom)) - 1" using idx e by simp
  have bu: "inputIndex ?b > int (length (findAllInputs shrunk_unfocused_dom)) - 1" using idx u by simp
  have bf: "inputIndex ?b > int (length (findAllInputs shrunk_focused_dom)) - 1" using idx f by simp
  from currentInput_after_handler [OF inv be, of typing_batch example_world] fire e
  have 1: "fst (didMutated emptied_dom typing_batch ?b example_world) = handleFocus emptied_dom ?b"
    and 2: "snd (currentInput emptied_dom (handleFocus emptied_dom ?b)) = None"
    and 3: "inputIndex (fst (currentInput emptied_dom (handleFocus emptied_dom ?b))) = - 1"
    by blast+
  from currentInput_after_handler [OF inv bu, of typing_batch example_world] u
  have 4: "snd (currentInput shrunk_unfocused_dom (handleFocus shrunk_unfocused_dom ?b)) = Some 11"
    and 5: "inputIndex (fst (currentInput shrunk_unfocused_dom (handleFocus shrunk_unfocused_dom ?b))) = 1"
    by simp_all
  from currentInput_after_handler [OF inv bf, of typing_batch example_world] f
  have 6: "snd (currentInput shrunk_focused_dom (handleFocus shrunk_focused_dom ?b)) = Some 10"
    and 7: "inputIndex (fst (currentInput shrunk_focused_dom (handleFocus shrunk_focused_dom ?b))) = 0"
    by simp_all
  from inv idx 1 2 3 4 5 6 7 show ?thesis by blast
qed

subsection \<open>Mutation detection\<close>

lemma cachedInputs_set_currentInput:
  "cachedInputs b = [] \<Longrightarrow> cachedInputs (set_currentInput D el b) = findAllInputs D"
  by (simp add: set_currentInput_def inputs_empty_cache Let_def)

lemma cachedInputs_updateCurrentInput:
  "cachedInputs b = [] \<Longrightarrow> cachedInputs (updateCurrentInput D b) = findAllInputs D"
  by (simp add: updateCurrentInput_def cachedInputs_set_currentInput)

lemma toolInstance_set_currentInput: "toolInstance (set_currentInput D el b) = toolInstance b"
  by (simp add: set_currentInput_def inputs_def Let_def)

lemma toolInstance_updateCurrentInput: "toolInstance (updateCurrentInput D b) = toolInstance b"
  by (simp add: updateCurrentInput_def toolInstance_set_currentInput)

lemma trace_call:
  "trace (call m p b w) =
     trace w @
     (case tool_methods (toolInstance b) m of
        None \<Rightarrow> []
      | Some hook \<Rightarrow>
          (if m = ''appendCallback''
           then [Log (''`appendCallback` hook is deprecated and will be removed in the next major release. ''
                              @ ''Use `rendered` hook instead'') ''warn'' NoArg] else [])
          @ [ToolMethod m]
          @ (case hook p of None \<Rightarrow> []
             | Some e \<Rightarrow> [Log (''Error during '' @ [CHR 0x27] @ m @ [CHR 0x27] @ '' call: '' @ message e)
                    ''error'' NoArg]))"
  by (simp add: call_def log_def record_event_def Let_def split: option.splits)

lemma trace_didMutated_fired:
  "shouldFireUpdate muts \<Longrightarrow>
   trace (snd (didMutated D muts b w)) =
     trace (call ''updated'' None (updateCurrentInput D (b\<lparr>cachedInputs := []\<rparr>)) w) @ [Emit ''didMutated'']"
  by (simp add: didMutated_def Let_def emit_def record_event_def)

lemma shouldFireUpdate_iff:
  "shouldFireUpdate muts \<longleftrightarrow>
     \<not> (\<exists>m \<in> set muts. \<exists>n \<in> set (addedNodes m) \<union> set (removedNodes m).
           isElement n \<and> dataset_get n ''mutationFree'' = Some ''true'')"
  by (auto simp: shouldFireUpdate_def list_ex_iff)

lemma didMutated_fired:
  assumes f: "shouldFireUpdate muts"
  shows "fst (didMutated D muts b w) = updateCurrentInput D (b\<lparr>cachedInputs := []\<rparr>)"
    and "cachedInputs (fst (didMutated D muts b w)) = findAllInputs D"
    and "\<exists>evs. trace (snd (didMutated D muts b w)) = trace w @ evs @ [Emit ''didMutated'']
           \<and> (tool_methods (toolInstance b) ''updated'' \<noteq> None \<longrightarrow> ToolMethod ''updated'' \<in> set evs)"
proof -
  show 1: "fst (didMutated D muts b w) = updateCurrentInput D (b\<lparr>cachedInputs := []\<rparr>)"
    using f by (simp add: didMutated_def Let_def)
  show "cachedInputs (fst (didMutated D muts b w)) = findAllInputs D"
    unfolding 1 by (simp add: cachedInputs_updateCurrentInput)
  show "\<exists>evs. trace (snd (didMutated D muts b w)) = trace w @ evs @ [Emit ''didMutated'']
           \<and> (tool_methods (toolInstance b) ''updated'' \<noteq> None \<longrightarrow> ToolMethod ''updated'' \<in> set evs)"
    unfolding trace_didMutated_fired[OF f] trace_call toolInstance_updateCurrentInput
    by (auto split: option.splits)
qed

lemma didMutated_ignored_iff: "(didMutated D muts b w = (b, w)) = (\<not> shouldFireUpdate muts)"
proof (cases "shouldFireUpdate muts")
  case False
  then show ?thesis by (simp add: didMutated_def)
next
  case True
  then have "trace (snd (didMutated D muts b w)) \<noteq> trace w"
    by (simp add: trace_didMutated_fired trace_call)
  then have "didMutated D muts b w \<noteq> (b, w)" by auto
  with True show ?thesis by simp
qed

text \<open>
  Claim C1, as stated, fails: the batch below removes a node marked mutation-free and
  adds a paragraph that is not marked, so it is not entirely mutation-free; yet the
  handler ignores it, and unit and world are as before.
\<close>

theorem didMutated_mixed_batch_ignored:
  "mixed_batch = [\<lparr>addedNodes = [new_paragraph], removedNodes = [fake_cursor]\<rparr>]
   \<and> dataset_get new_paragraph ''mutationFree'' = None
   \<and> didMutated example_dom mixed_batch example_block example_world = (example_block, example_world)"
  by (simp add: mixed_batch_def new_paragraph_def fake_cursor_def didMutated_def shouldFireUpdate_def)

text \<open>
  Claim C1, amended. The handler ignores a batch (unit and world unchanged) exactly
  when some added or removed node of some record is an element whose
  \<^verbatim>\<open>dataset.mutationFree\<close> is \<^verbatim>\<open>'true'\<close>. For every other batch all four effects
  occur: the cache is dropped and the current input re-resolved (the unit is the one
  \<open>updateCurrentInput\<close> gives on the emptied cache, whose cache is then the live
  list of inputs), the tool's \<^verbatim>\<open>updated\<close> hook is called if the tool has one, and
  \<^verbatim>\<open>didMutated\<close> is emitted as the last event.
\<close>

theorem didMutated_effects:
  "((didMutated D muts b w = (b, w)) =
      (\<exists>m \<in> set muts. \<exists>n \<in> set (addedNodes m) \<union> set (removedNodes m).
          isElement n \<and> dataset_get n ''mutationFree'' = Some ''true''))
   \<and> (\<not> (\<exists>m \<in> set muts. \<exists>n \<in> set (addedNodes m) \<union> set (removedNodes m).
            isElement n \<and> dataset_get n ''mutationFree'' = Some ''true'') \<longrightarrow>
        fst (didMutated D muts b w) = updateCurrentInput D (b\<lparr>cachedInputs := []\<rparr>)
      \<and> cachedInputs (fst (didMutated D muts b w)) = findAllInputs D
      \<and> (\<exists>evs. trace (snd (didMutated D muts b w)) = trace w @ evs @ [Emit ''didMutated'']
             \<and> (tool_methods (toolInstance b) ''updated'' \<noteq> None \<longrightarrow> ToolMethod ''updated'' \<in> set evs)))"
  using didMutated_ignored_iff[of D muts b w] didMutated_fired[of muts D b w]
  unfolding shouldFireUpdate_iff by blast

theorem didMutated_effects_witness:
  "didMutated example_dom typing_batch example_block example_world \<noteq> (example_block, example_world)
   \<and> fst (didMutated example_dom typing_batch example_block example_world) =
       updateCurrentInput example_dom (example_block\<lparr>cachedInputs := []\<rparr>)
   \<and> cachedInputs (fst (didMutated example_dom typing_batch example_block example_world)) = [10, 11]
   \<and> (\<exists>evs. trace (snd (didMutated example_dom typing_batch example_block example_world)) =
               trace example_world @ evs @ [Emit ''didMutated'']
            \<and> ToolMethod ''updated'' \<in> set evs)"
proof -
  have unmarked: "\<not> (\<exists>m \<in> set typing_batch. \<exists>n \<in> set (addedNodes m) \<union> set (removedNodes m).
            isElement n \<and> dataset_get n ''mutationFree'' = Some ''true'')"
    by (simp add: typing_batch_def new_paragraph_def)
  have hook: "tool_methods (toolInstance example_block) ''updated'' \<noteq> None"
    by (simp add: example_unit paragraph_instance_def)
  have live: "findAllInputs example_dom = [10, 11]"
    by (simp add: example_dom_def)
  show ?thesis
    unfolding live [symmetric]
    using didMutated_effects [of example_dom typing_batch example_block example_world]
      unmarked hook
    by blast
qed

subsection \<open>Saving\<close>

lemma heap_log [simp]: "heap (log msg ty args w) = heap w"
  by (simp add: log_def)

lemma heap_obj_set [simp]: "heap (obj_set a k v w) = (heap w)(a := obj_assign (heap w a) k v)"
  by (simp add: obj_set_def)

lemma own_obj_assign_other: "k \<noteq> n \<Longrightarrow> own_props (obj_assign obj k v) n = own_props obj n"
  by (simp add: obj_assign_def split: jsval.splits)

lemma own_obj_assign_same:
  "n \<noteq> ''__proto__'' \<Longrightarrow> own_props (obj_assign obj n v) n = Some v"
  by (simp add: obj_assign_def)

lemma assign_all_Cons: "assign_all obj ((k, v) # kvs) = assign_all (obj_assign obj k v) kvs"
  by (simp add: assign_all_def)

lemma assign_all_Nil: "assign_all obj [] = obj"
  by (simp add: assign_all_def)

lemma saveTunes_append: "saveTunes (xs @ ys) a w = saveTunes ys a (saveTunes xs a w)"
  by (induction xs a w rule: saveTunes.induct) (auto split: option.splits sum.splits)

lemma heap_saveTunes_other: "a' \<noteq> a \<Longrightarrow> heap (saveTunes es a w) a' = heap w a'"
  by (induction es a w rule: saveTunes.induct) (simp_all split: option.splits sum.splits)

lemma heap_saveTunes: "heap (saveTunes es a w) a = assign_all (heap w a) (payload_entries es)"
proof (induction es arbitrary: w)
  case Nil
  then show ?case by (simp add: assign_all_Nil)
next
  case (Cons entry rest)
  obtain name tune where entry: "entry = (name, tune)" by (cases entry)
  show ?case
  proof (cases "tune_save tune")
    case None
    with Cons entry show ?thesis by simp
  next
    case (Some hook)
    show ?thesis
    proof (cases "hook ()")
      case (Inl e)
      with Cons Some entry show ?thesis by simp
    next
      case (Inr v)
      with Cons Some entry show ?thesis by (simp add: assign_all_Cons)
    qed
  qed
qed

lemma own_saveTunes:
  "n \<noteq> ''__proto__'' \<Longrightarrow>
   own_props (heap (saveTunes es a w) a) n = (own_props (heap w a) ++ tune_payloads es) n"
proof (induction es arbitrary: w)
  case Nil
  then show ?case by simp
next
  case (Cons entry rest)
  obtain name tune where entry: "entry = (name, tune)" by (cases entry)
  show ?case
  proof (cases "tune_save tune")
    case None
    with Cons entry show ?thesis by simp
  next
    case (Some hook)
    show ?thesis
    proof (cases "hook ()")
      case (Inl e)
      with Cons Some entry show ?thesis by simp
    next
      case (Inr v)
      let ?w = "obj_set a name v w"
      have eq: "own_props (heap (saveTunes (entry # rest) a w) a) n
                  = (own_props (heap ?w a) ++ tune_payloads rest) n"
        using Cons Some Inr entry by simp
      have upd: "own_props (heap ?w a) n = (if name = n then Some v else own_props (heap w a) n)"
        using Cons.prems by (simp add: own_obj_assign_other own_obj_assign_same)
      show ?thesis unfolding eq using Some Inr entry upd
        by (simp add: map_add_def split: option.splits)
    qed
  qed
qed

lemma own_saveTunes_untouched:
  "tune_payloads es n = None \<Longrightarrow>
   own_props (heap (saveTunes es a w) a) n = own_props (heap w a) n"
proof (induction es arbitrary: w)
  case Nil
  then show ?case by simp
next
  case (Cons entry rest)
  obtain name tune where entry: "entry = (name, tune)" by (cases entry)
  show ?case
  proof (cases "tune_save tune")
    case None
    with Cons entry show ?thesis by simp
  next
    case (Some hook)
    show ?thesis
    proof (cases "hook ()")
      case (Inl e)
      with Cons Some entry show ?thesis by simp
    next
      case (Inr v)
      from Cons.prems Some Inr entry have rest: "tune_payloads rest n = None" and ne: "name \<noteq> n"
        by (auto simp: map_add_def split: option.splits if_splits)
      from Cons.IH [OF rest, of "obj_set a name v w"] Some Inr entry ne
      show ?thesis by (simp add: own_obj_assign_other)
    qed
  qed
qed

lemma tune_payloads_absent: "n \<notin> fst ` set es \<Longrightarrow> tune_payloads es n = None"
  by (induction es rule: tune_payloads.induct)
     (auto simp: map_add_def split: option.splits sum.splits)

lemma tune_payloads_distinct:
  "distinct (map fst es) \<Longrightarrow> (n, t) \<in> set es \<Longrightarrow>
   tune_payloads es n =
     (case tune_save t of None \<Rightarrow> None
      | Some hook \<Rightarrow> (case hook () of Inr v \<Rightarrow> Some v | Inl e \<Rightarrow> None))"
proof (induction es rule: tune_payloads.induct)
  case 1
  then show ?case by simp
next
  case (2 name tune rest)
  show ?case
  proof (cases "(n, t) = (name, tune)")
    case True
    with 2 have "n \<notin> fst ` set rest" by auto
    then have "tune_payloads rest n = None" by (rule tune_payloads_absent)
    with True show ?thesis by (auto simp: map_add_def split: option.splits sum.splits)
  next
    case False
    with 2 have in_rest: "(n, t) \<in> set rest" and "n \<noteq> name" by (auto simp: rev_image_eqI)
    with 2 have "tune_payloads rest n =
        (case tune_save t of None \<Rightarrow> None
         | Some hook \<Rightarrow> (case hook () of Inr v \<Rightarrow> Some v | Inl e \<Rightarrow> None))" by simp
    with \<open>n \<noteq> name\<close> show ?thesis
      by (auto simp: map_add_def split: option.splits sum.splits)
  qed
qed

lemma trace_saveTunes_mono: "set (trace w) \<subseteq> set (trace (saveTunes es a w))"
  by (induction es a w rule: saveTunes.induct)
     (auto simp: log_def obj_set_def split: option.splits sum.splits)

lemma trace_saveTunes_warns:
  "(n, t) \<in> set es \<Longrightarrow> tune_save t = Some hook \<Longrightarrow> hook () = Inl e \<Longrightarrow>
   Log (''Tune '' @ constructor_name t @ '' save method throws an Error %o'') ''warn'' (ErrArg e)
     \<in> set (trace (saveTunes es a w))"
proof (induction es a w rule: saveTunes.induct)
  case (1 a w)
  then show ?case by simp
next
  case (2 name tune rest a w)
  show ?case
  proof (cases "(n, t) = (name, tune)")
    case True
    let ?w = "log (''Tune '' @ constructor_name t @ '' save method throws an Error %o'')
                ''warn'' (ErrArg e) w"
    have "Log (''Tune '' @ constructor_name t @ '' save method throws an Error %o'') ''warn'' (ErrArg e)
            \<in> set (trace ?w)" by (simp add: log_def)
    then have "Log (''Tune '' @ constructor_name t @ '' save method throws an Error %o'') ''warn'' (ErrArg e)
            \<in> set (trace (saveTunes rest a ?w))" using trace_saveTunes_mono by blast
    with True 2 show ?thesis by simp
  next
    case False
    with 2 have "(n, t) \<in> set rest" by auto
    with 2 show ?thesis by (auto split: option.splits sum.splits)
  qed
qed

lemma save_resolved:
  "tool_save (toolInstance b) (pluginsContent D b) = Inr d \<Longrightarrow>
   save D ms me b w =
     (saveTunes (tunesInstances b @ defaultTunesInstances b) (unavailableTunesData b) w,
      Inr (Some \<lparr>saved_id = block_id b, saved_tool = block_name b, saved_data = d,
                 saved_tunes = unavailableTunesData b, saved_time = me - ms\<rparr>))"
  by (simp add: save_def promise_resolve_def Let_def)

text \<open>
  Claim C3 does not hold of the code. The unit below is the concrete unit with a tool
  instance whose \<^verbatim>\<open>save\<close> rejects: the promise of \<open>save\<close> rejects with the tool's
  error, and the world is untouched, so nothing is logged and no tune was asked.
\<close>

theorem save_rejects_when_tool_save_rejects:
  "save example_dom 0 5 (example_block\<lparr>toolInstance := faulty_instance\<rparr>) example_world =
     (example_world, Inl (Error ''extraction failed''))"
  by (simp add: save_def faulty_instance_def)

lemma internal_broken_new_block:
  "new_block example_api ''generated'' internal_broken_options empty_world = (B, W) \<Longrightarrow>
     toolInstance B = paragraph_instance
   \<and> tunesInstances B = []
   \<and> defaultTunesInstances B =
       [(''broken'', tune_create broken_tune (JObj [(''x'', JNum 1)]))]
   \<and> unavailableTunesData B = 0
   \<and> block_id B = ''b1'' \<and> block_name B = ''paragraph''
   \<and> heap W 0 = \<lparr>own_props = [''broken'' \<mapsto> JObj [(''x'', JNum 1)]], prototype_of = ObjectPrototype\<rparr>"
  by (auto simp add: new_block_def alloc_def internal_broken_options_def example_options_def
     empty_world_def composeTunes_def compose_def paragraph_tool_def broken_tune_def
     js_get_def map_has_def obj_set_def obj_assign_def example_api_def addTool_def truthy_def
     dom_make_def log_def paragraph_instance_def Let_def)

text \<open>
  Claim C7, as stated, fails: the result can hold an entry under the name of the tune
  whose hook threw. The unit below is built from persisted data for its internal tune
  \<^verbatim>\<open>broken\<close>; the constructor keeps that payload in the object of unavailable data,
  the tune's \<^verbatim>\<open>save\<close> hook throws and is logged, and the tunes object of the result
  still holds the persisted payload under \<^verbatim>\<open>broken\<close>.
\<close>

theorem save_keeps_entry_of_throwing_tune:
  "map fst (defaultTunesInstances
              (fst (new_block example_api ''generated'' internal_broken_options empty_world)))
     = [''broken'']
   \<and> snd (save example_dom 0 5
            (fst (new_block example_api ''generated'' internal_broken_options empty_world))
            (snd (new_block example_api ''generated'' internal_broken_options empty_world)))
       = Inr (Some \<lparr>saved_id = ''b1'', saved_tool = ''paragraph'',
                    saved_data = JObj [(''text'', JStr ''hi'')], saved_tunes = 0, saved_time = 5\<rparr>)
   \<and> own_props (heap (fst (save example_dom 0 5
            (fst (new_block example_api ''generated'' internal_broken_options empty_world))
            (snd (new_block example_api ''generated'' internal_broken_options empty_world)))) 0)
         ''broken'' = Some (JObj [(''x'', JNum 1)])
   \<and> Log ''Tune BrokenTune save method throws an Error %o'' ''warn'' (ErrArg (Error ''tune save failed''))
        \<in> set (trace (fst (save example_dom 0 5
            (fst (new_block example_api ''generated'' internal_broken_options empty_world))
            (snd (new_block example_api ''generated'' internal_broken_options empty_world)))))"
proof -
  let ?B = "fst (new_block example_api ''generated'' internal_broken_options empty_world)"
  let ?W = "snd (new_block example_api ''generated'' internal_broken_options empty_world)"
  note u = internal_broken_new_block [of ?B ?W, simplified]
  have extracted: "tool_save (toolInstance ?B) (pluginsContent example_dom ?B)
                     = Inr (JObj [(''text'', JStr ''hi'')])"
    using u by (simp add: paragraph_instance_def)
  show ?thesis
    unfolding save_resolved [OF extracted]
    using u by (simp add: broken_tune_def log_def)
qed

text \<open>
  Claim C7, amended. When the tool's extraction resolves and the entries of the two
  tune collections have distinct names, a tune whose \<^verbatim>\<open>save\<close> hook throws does not
  stop \<open>save\<close>: it resolves with a result that carries the tool's data; the tunes
  object of the result holds the payload of every tune, of a name other than
  \<^verbatim>\<open>__proto__\<close>, whose hook returns; the throwing hook contributes nothing, so under
  the name of its tune the object holds what it held before the call (nothing, a
  persisted payload, or the payload of an earlier save); and the trace holds the
  warning for that tune.
\<close>

theorem save_with_throwing_tune:
  assumes "tool_save (toolInstance b) (pluginsContent D b) = Inr d"
    and "distinct (map fst (tunesInstances b @ defaultTunesInstances b))"
    and "(n0, t0) \<in> set (tunesInstances b @ defaultTunesInstances b)"
    and "tune_save t0 = Some hook0" and "hook0 () = Inl e"
  shows "\<exists>w' saved.
           save D ms me b w = (w', Inr (Some saved))
         \<and> saved_data saved = d
         \<and> (\<forall>(n, t) \<in> set (tunesInstances b @ defaultTunesInstances b).
              n \<noteq> ''__proto__'' \<longrightarrow>
              (\<forall>hook v. tune_save t = Some hook \<and> hook () = Inr v \<longrightarrow>
                 own_props (heap w' (saved_tunes saved)) n = Some v))
         \<and> own_props (heap w' (saved_tunes saved)) n0 = own_props (heap w (unavailableTunesData b)) n0
         \<and> Log (''Tune '' @ constructor_name t0 @ '' save method throws an Error %o'') ''warn'' (ErrArg e)
              \<in> set (trace w')"
proof -
  let ?es = "tunesInstances b @ defaultTunesInstances b"
  let ?a = "unavailableTunesData b"
  let ?w = "saveTunes ?es ?a w"
  let ?saved = "\<lparr>saved_id = block_id b, saved_tool = block_name b, saved_data = d,
                 saved_tunes = ?a, saved_time = me - ms\<rparr>"
  have s: "save D ms me b w = (?w, Inr (Some ?saved))" using assms(1) by (rule save_resolved)
  have others: "\<forall>(n, t) \<in> set ?es. n \<noteq> ''__proto__'' \<longrightarrow>
                 (\<forall>hook v. tune_save t = Some hook \<and> hook () = Inr v \<longrightarrow>
                    own_props (heap ?w ?a) n = Some v)"
  proof (clarify)
    fix n t hook v
    assume "(n, t) \<in> set ?es" and n: "n \<noteq> ''__proto__''"
      and "tune_save t = Some hook" and "hook () = Inr v"
    then have "tune_payloads ?es n = Some v"
      using tune_payloads_distinct[OF assms(2), of n t] by simp
    then show "own_props (heap ?w ?a) n = Some v"
      by (simp add: own_saveTunes [OF n] map_add_def)
  qed
  have "tune_payloads ?es n0 = None"
    using tune_payloads_distinct[OF assms(2,3)] assms(4,5) by simp
  then have own: "own_props (heap ?w ?a) n0 = own_props (heap w ?a) n0"
    by (rule own_saveTunes_untouched)
  have logged: "Log (''Tune '' @ constructor_name t0 @ '' save method throws an Error %o'') ''warn'' (ErrArg e)
              \<in> set (trace ?w)" using assms(3,4,5) by (rule trace_saveTunes_warns)
  from s others own logged show ?thesis by simp
qed

theorem save_with_throwing_tune_witness:
  "snd (save example_dom 0 5 example_block example_world) =
     Inr (Some \<lparr>saved_id = ''b1'', saved_tool = ''paragraph'',
                saved_data = JObj [(''text'', JStr ''hi'')], saved_tunes = 0, saved_time = 5\<rparr>)
   \<and> own_props (heap (fst (save example_dom 0 5 example_block example_world)) 0) ''align''
        = Some (JObj [(''value'', JStr ''left'')])
   \<and> own_props (heap (fst (save example_dom 0 5 example_block example_world)) 0) ''readonly''
        = Some (JBool False)
   \<and> own_props (heap (fst (save example_dom 0 5 example_block example_world)) 0) ''broken'' = None
   \<and> Log ''Tune BrokenTune save method throws an Error %o'' ''warn'' (ErrArg (Error ''tune save failed''))
        \<in> set (trace (fst (save example_dom 0 5 example_block example_world)))"
proof -
  have extracted: "tool_save (toolInstance example_block) (pluginsContent example_dom example_block)
                     = Inr (JObj [(''text'', JStr ''hi'')])"
    by (simp add: example_unit paragraph_instance_def)
  have names: "distinct (map fst (tunesInstances example_block @ defaultTunesInstances example_block))"
    by (simp add: example_unit)
  have broken: "(''broken'', tune_create broken_tune JUndefined)
                  \<in> set (tunesInstances example_block @ defaultTunesInstances example_block)"
    by (simp add: example_unit)
  have hook: "tune_save (tune_create broken_tune JUndefined) = Some (\<lambda>u. Inl (Error ''tune save failed''))"
    by (simp add: broken_tune_def)
  have throws: "(\<lambda>u. Inl (Error ''tune save failed'') :: error + jsval) () = Inl (Error ''tune save failed'')"
    by simp
  from save_with_throwing_tune [OF extracted names broken hook throws, of 0 5 example_world]
  obtain w' saved where
    s: "save example_dom 0 5 example_block example_world = (w', Inr (Some saved))"
    and d: "saved_data saved = JObj [(''text'', JStr ''hi'')]"
    and others: "\<forall>(n, t) \<in> set (tunesInstances example_block @ defaultTunesInstances example_block).
              n \<noteq> ''__proto__'' \<longrightarrow>
              (\<forall>hook v. tune_save t = Some hook \<and> hook () = Inr v \<longrightarrow>
                 own_props (heap w' (saved_tunes saved)) n = Some v)"
    and own: "own_props (heap w' (saved_tunes saved)) ''broken''
                = own_props (heap example_world (unavailableTunesData example_block)) ''broken''"
    and logged: "Log (''Tune '' @ constructor_name (tune_create broken_tune JUndefined)
                   @ '' save method throws an Error %o'') ''warn'' (ErrArg (Error ''tune save failed''))
              \<in> set (trace w')"
    by blast
  have saved: "saved = \<lparr>saved_id = ''b1'', saved_tool = ''paragraph'',
                saved_data = JObj [(''text'', JStr ''hi'')], saved_tunes = 0, saved_time = 5\<rparr>"
    using s by (simp add: save_resolved [OF extracted] example_unit)
  have align: "own_props (heap w' 0) ''align'' = Some (JObj [(''value'', JStr ''left'')])"
    using others saved by (simp add: example_unit align_tune_def)
  have readonly: "own_props (heap w' 0) ''readonly'' = Some (JBool False)"
    using others saved by (simp add: example_unit readonly_tune_def)
  have none: "own_props (heap w' 0) ''broken'' = None"
    using own saved by (simp add: example_unit)
  from s saved align readonly none logged show ?thesis by (simp add: broken_tune_def)
qed

text \<open>
  Claim C10. When the tool's extraction resolves, the tunes object of the result is
  the unit's object of unavailable tune data (the same address), and \<open>save\<close> has
  written into it: afterwards it is the object it was before with the payload of each
  returning hook assigned under the tune's name, in order; so under every name but
  \<^verbatim>\<open>__proto__\<close> its own entry is the earlier one overridden by the payloads of the
  loaded tunes. A later \<open>save\<close> of a unit with the same object starts from that and
  assigns its own payloads, so the payloads of loaded tunes stay in the object from
  one call to the next.
\<close>

theorem save_merges_into_store:
  assumes "tool_save (toolInstance b) (pluginsContent D b) = Inr d"
  shows "\<exists>w' saved.
           save D ms me b w = (w', Inr (Some saved))
         \<and> saved_tunes saved = unavailableTunesData b
         \<and> heap w' (unavailableTunesData b) =
             assign_all (heap w (unavailableTunesData b))
               (payload_entries (tunesInstances b @ defaultTunesInstances b))
         \<and> (\<forall>n. n \<noteq> ''__proto__'' \<longrightarrow>
               own_props (heap w' (unavailableTunesData b)) n =
                 (own_props (heap w (unavailableTunesData b))
                    ++ tune_payloads (tunesInstances b @ defaultTunesInstances b)) n)
         \<and> (\<forall>b2 D2 d2 ms2 me2.
               unavailableTunesData b2 = unavailableTunesData b
               \<and> tool_save (toolInstance b2) (pluginsContent D2 b2) = Inr d2 \<longrightarrow>
               heap (fst (save D2 ms2 me2 b2 w')) (unavailableTunesData b) =
                 assign_all
                   (assign_all (heap w (unavailableTunesData b))
                      (payload_entries (tunesInstances b @ defaultTunesInstances b)))
                   (payload_entries (tunesInstances b2 @ defaultTunesInstances b2))
               \<and> (\<forall>n. n \<noteq> ''__proto__'' \<longrightarrow>
                     own_props (heap (fst (save D2 ms2 me2 b2 w')) (unavailableTunesData b)) n =
                       (own_props (heap w (unavailableTunesData b))
                          ++ tune_payloads (tunesInstances b @ defaultTunesInstances b)
                          ++ tune_payloads (tunesInstances b2 @ defaultTunesInstances b2)) n))"
proof -
  let ?a = "unavailableTunesData b"
  let ?es = "tunesInstances b @ defaultTunesInstances b"
  let ?w = "saveTunes ?es ?a w"
  let ?saved = "\<lparr>saved_id = block_id b, saved_tool = block_name b, saved_data = d,
                 saved_tunes = ?a, saved_time = me - ms\<rparr>"
  have s: "save D ms me b w = (?w, Inr (Some ?saved))" using assms by (rule save_resolved)
  have h: "heap ?w ?a = assign_all (heap w ?a) (payload_entries ?es)"
    by (rule heap_saveTunes)
  have o: "own_props (heap ?w ?a) n = (own_props (heap w ?a) ++ tune_payloads ?es) n"
    if "n \<noteq> ''__proto__''" for n
    using that by (rule own_saveTunes)
  have again: "heap (fst (save D2 ms2 me2 b2 ?w)) ?a =
                 assign_all (assign_all (heap w ?a) (payload_entries ?es))
                   (payload_entries (tunesInstances b2 @ defaultTunesInstances b2))
               \<and> (\<forall>n. n \<noteq> ''__proto__'' \<longrightarrow>
                     own_props (heap (fst (save D2 ms2 me2 b2 ?w)) ?a) n =
                       (own_props (heap w ?a) ++ tune_payloads ?es
                          ++ tune_payloads (tunesInstances b2 @ defaultTunesInstances b2)) n)"
    if "unavailableTunesData b2 = ?a" and "tool_save (toolInstance b2) (pluginsContent D2 b2) = Inr d2"
    for b2 D2 d2 ms2 me2
  proof -
    let ?es2 = "tunesInstances b2 @ defaultTunesInstances b2"
    have f: "fst (save D2 ms2 me2 b2 ?w) = saveTunes ?es2 ?a ?w"
      using that by (simp add: save_resolved)
    have 1: "heap (saveTunes ?es2 ?a ?w) ?a
               = assign_all (assign_all (heap w ?a) (payload_entries ?es)) (payload_entries ?es2)"
      using heap_saveTunes [of ?es2 ?a ?w] h by simp
    have 2: "own_props (heap (saveTunes ?es2 ?a ?w) ?a) n =
               (own_props (heap w ?a) ++ tune_payloads ?es ++ tune_payloads ?es2) n"
      if n: "n \<noteq> ''__proto__''" for n
      using own_saveTunes [OF n, of ?es2 ?a ?w] o [OF n]
      by (simp add: map_add_def split: option.splits)
    from 1 2 show ?thesis unfolding f by blast
  qed
  show ?thesis
  proof (rule exI [of _ ?w], rule exI [of _ ?saved], intro conjI allI impI)
    show "save D ms me b w = (?w, Inr (Some ?saved))" by (rule s)
  next
    show "saved_tunes ?saved = ?a" by simp
  next
    show "heap ?w ?a = assign_all (heap w ?a) (payload_entries ?es)" by (rule h)
  next
    fix n :: string
    assume "n \<noteq> ''__proto__''"
    then show "own_props (heap ?w ?a) n = (own_props (heap w ?a) ++ tune_payloads ?es) n"
      by (rule o)
  next
    fix b2 D2 d2 ms2 me2
    assume "unavailableTunesData b2 = ?a
              \<and> tool_save (toolInstance b2) (pluginsContent D2 b2) = Inr d2"
    then show "heap (fst (save D2 ms2 me2 b2 ?w)) ?a =
                 assign_all (assign_all (heap w ?a) (payload_entries ?es))
                   (payload_entries (tunesInstances b2 @ defaultTunesInstances b2))"
      using again by blast
  next
    fix b2 D2 d2 ms2 me2 and n :: string
    assume "unavailableTunesData b2 = ?a
              \<and> tool_save (toolInstance b2) (pluginsContent D2 b2) = Inr d2"
      and "n \<noteq> ''__proto__''"
    then show "own_props (heap (fst (save D2 ms2 me2 b2 ?w)) ?a) n =
                 (own_props (heap w ?a) ++ tune_payloads ?es
                    ++ tune_payloads (tunesInstances b2 @ defaultTunesInstances b2)) n"
      using again by blast
  qed
qed

theorem save_merges_into_store_witness:
  "saved_tunes (the (projr (snd (save example_dom 0 5 example_block example_world))))
     = unavailableTunesData example_block
   \<and> heap example_world 0 =
       \<lparr>own_props = [''gone'' \<mapsto> JObj [(''x'', JNum 1)]], prototype_of = ObjectPrototype\<rparr>
   \<and> heap (fst (save example_dom 0 5 example_block example_world)) 0 =
       \<lparr>own_props = [''gone'' \<mapsto> JObj [(''x'', JNum 1)],
                     ''align'' \<mapsto> JObj [(''value'', JStr ''left'')],
                     ''readonly'' \<mapsto> JBool False],
        prototype_of = ObjectPrototype\<rparr>
   \<and> own_props (heap (fst (save example_dom 5 9
                  (example_block\<lparr>tunesInstances := [(''align'', tune_create broken_tune JUndefined)]\<rparr>)
                  (fst (save example_dom 0 5 example_block example_world)))) 0) ''align''
       = Some (JObj [(''value'', JStr ''left'')])"
proof -
  let ?b2 = "example_block\<lparr>tunesInstances := [(''align'', tune_create broken_tune JUndefined)]\<rparr>"
  have extracted: "tool_save (toolInstance example_block) (pluginsContent example_dom example_block)
                     = Inr (JObj [(''text'', JStr ''hi'')])"
    by (simp add: example_unit paragraph_instance_def)
  have extracted2: "tool_save (toolInstance ?b2) (pluginsContent example_dom ?b2)
                     = Inr (JObj [(''text'', JStr ''hi'')])"
    by (simp add: example_unit paragraph_instance_def)
  from save_merges_into_store [OF extracted, of 0 5 example_world]
  obtain w' saved where
    s: "save example_dom 0 5 example_block example_world = (w', Inr (Some saved))"
    and same: "saved_tunes saved = unavailableTunesData example_block"
    and merged: "heap w' (unavailableTunesData example_block) =
             assign_all (heap example_world (unavailableTunesData example_block))
               (payload_entries (tunesInstances example_block @ defaultTunesInstances example_block))"
    and pointwise: "\<forall>n. n \<noteq> ''__proto__'' \<longrightarrow>
               own_props (heap w' (unavailableTunesData example_block)) n =
                 (own_props (heap example_world (unavailableTunesData example_block))
                    ++ tune_payloads (tunesInstances example_block @ defaultTunesInstances example_block)) n"
    and later: "\<forall>b2 D2 d2 ms2 me2.
               unavailableTunesData b2 = unavailableTunesData example_block
               \<and> tool_save (toolInstance b2) (pluginsContent D2 b2) = Inr d2 \<longrightarrow>
               heap (fst (save D2 ms2 me2 b2 w')) (unavailableTunesData example_block) =
                 assign_all
                   (assign_all (heap example_world (unavailableTunesData example_block))
                      (payload_entries (tunesInstances example_block @ defaultTunesInstances example_block)))
                   (payload_entries (tunesInstances b2 @ defaultTunesInstances b2))
               \<and> (\<forall>n. n \<noteq> ''__proto__'' \<longrightarrow>
                     own_props (heap (fst (save D2 ms2 me2 b2 w')) (unavailableTunesData example_block)) n =
                       (own_props (heap example_world (unavailableTunesData example_block))
                          ++ tune_payloads (tunesInstances example_block @ defaultTunesInstances example_block)
                          ++ tune_payloads (tunesInstances b2 @ defaultTunesInstances b2)) n)"
    by (elim exE conjE) (rule that)
  have first: "heap w' 0 = \<lparr>own_props = [''gone'' \<mapsto> JObj [(''x'', JNum 1)],
                     ''align'' \<mapsto> JObj [(''value'', JStr ''left'')],
                     ''readonly'' \<mapsto> JBool False],
        prototype_of = ObjectPrototype\<rparr>"
    using merged
    by (simp add: example_unit align_tune_def broken_tune_def readonly_tune_def
          assign_all_def obj_assign_def)
  have addr2: "unavailableTunesData ?b2 = unavailableTunesData example_block" by simp
  note kept = later [rule_format, of ?b2 example_dom "JObj [(''text'', JStr ''hi'')]" 5 9,
                     OF conjI [OF addr2 extracted2], THEN conjunct2, rule_format, of "''align''"]
  have second: "own_props (heap (fst (save example_dom 5 9 ?b2 w')) 0) ''align''
                       = Some (JObj [(''value'', JStr ''left'')])"
    using kept
    by (simp add: example_unit align_tune_def broken_tune_def readonly_tune_def map_add_def)
  from s same first second show ?thesis by (simp add: example_unit)
qed

subsection \<open>Construction\<close>

lemma addTool_frame:
  "addTool A tool b w = (b', w') \<Longrightarrow>
     toolInstance b' = toolInstance b \<and> tunesInstances b' = tunesInstances b
   \<and> defaultTunesInstances b' = defaultTunesInstances b
   \<and> unavailableTunesData b' = unavailableTunesData b \<and> heap w' = heap w
   \<and> cachedInputs b' = cachedInputs b \<and> inputIndex b' = inputIndex b"
  by (auto simp: addTool_def Let_def split: option.splits if_splits)

lemma addTools_frame:
  "addTools A tools b w = (b', w') \<Longrightarrow>
     toolInstance b' = toolInstance b \<and> tunesInstances b' = tunesInstances b
   \<and> defaultTunesInstances b' = defaultTunesInstances b
   \<and> unavailableTunesData b' = unavailableTunesData b \<and> heap w' = heap w
   \<and> cachedInputs b' = cachedInputs b \<and> inputIndex b' = inputIndex b"
proof (induction tools arbitrary: b w)
  case Nil
  then show ?case by simp
next
  case (Cons tool tools)
  obtain b1 w1 where one: "addTool A tool b w = (b1, w1)" by (cases "addTool A tool b w")
  with Cons.prems have rest: "addTools A tools b1 w1 = (b', w')" by simp
  from Cons.IH [OF rest] addTool_frame [OF one] show ?case by simp
qed

lemma wrapTunes_fold: "fst (wrapTunes ts n w) = foldl wrap_step n ts"
  by (induction ts n w rule: wrapTunes.induct)
     (simp_all add: wrap_step_def split: option.splits sum.splits)

lemma heap_wrapTunes: "heap (snd (wrapTunes ts n w)) = heap w"
  by (induction ts n w rule: wrapTunes.induct) (simp_all split: option.splits sum.splits)

lemma compose_frame:
  assumes "compose A b w = ((b', h), w')"
  shows "toolInstance b' = toolInstance b" and "tunesInstances b' = tunesInstances b"
    and "defaultTunesInstances b' = defaultTunesInstances b"
    and "unavailableTunesData b' = unavailableTunesData b" and "heap w' = heap w"
    and "cachedInputs b' = cachedInputs b" and "inputIndex b' = inputIndex b"
    and "\<exists>add. h = Element ''div'' [''ce-block''] [] []
                  [foldl wrap_step (content_node A b)
                     (map snd (tunesInstances b) @ map snd (defaultTunesInstances b)), add]"
proof -
  let ?b1 = "b\<lparr>nodes_toolbox := dom_make ''div'' [''ce-toolbox-add1'']\<rparr>"
  obtain b2 w1 where tools: "addTools A (blockTools A) ?b1 w = (b2, w1)"
    by (cases "addTools A (blockTools A) ?b1 w")
  note fr = addTools_frame [OF tools]
  let ?content = "appendChild (appendChild (appendChild (dom_make ''div'' [''ce-block__content''])
                    (setAttribute (appendChild (dom_make ''div'' [''ce-block__content--dnd''])
                                     (svg A ''drag'' 13 13)) ''draggable'' ''true''))
                    (tool_render (toolInstance b)))
                    (appendChild (dom_make ''div'' [''ce-block__content--settings''])
                       (svg A ''settings'' 13 13))"
  let ?ts = "map snd (tunesInstances b) @ map snd (defaultTunesInstances b)"
  obtain wrapped w2 where wr: "wrapTunes ?ts ?content w1 = (wrapped, w2)"
    by (cases "wrapTunes ?ts ?content w1")
  have content: "?content = content_node A b"
    by (simp add: content_node_def dom_make_def)
  have wrapped: "wrapped = foldl wrap_step (content_node A b) ?ts"
    using wrapTunes_fold [of ?ts ?content w1] wr content by simp
  have w2: "heap w2 = heap w1" using heap_wrapTunes [of ?ts ?content w1] wr by simp
  have result: "compose A b w =
      ((b2, appendChild (appendChild (dom_make ''div'' [''ce-block'']) wrapped)
              (appendChild (appendChild (dom_make ''div'' [''ce-block__add''])
                              (svg A ''intermediate_plus'' 13 13)) (nodes_toolbox b2))), w2)"
    using tools wr fr by (simp add: compose_def Let_def)
  with assms have
    "((b', h), w') =
       ((b2, appendChild (appendChild (dom_make ''div'' [''ce-block'']) wrapped)
              (appendChild (appendChild (dom_make ''div'' [''ce-block__add''])
                              (svg A ''intermediate_plus'' 13 13)) (nodes_toolbox b2))), w2)"
    by (rule trans [OF sym])
  then have b': "b' = b2" and w': "w' = w2"
    and h: "h = appendChild (appendChild (dom_make ''div'' [''ce-block'']) wrapped)
              (appendChild (appendChild (dom_make ''div'' [''ce-block__add''])
                              (svg A ''intermediate_plus'' 13 13)) (nodes_toolbox b2))"
    by blast+
  from fr b' show "toolInstance b' = toolInstance b" by simp
  from fr b' show "tunesInstances b' = tunesInstances b" by simp
  from fr b' show "defaultTunesInstances b' = defaultTunesInstances b" by simp
  from fr b' show "unavailableTunesData b' = unavailableTunesData b" by simp
  from fr w' w2 show "heap w' = heap w" by simp
  from fr b' show "cachedInputs b' = cachedInputs b" by simp
  from fr b' show "inputIndex b' = inputIndex b" by simp
  from h wrapped show "\<exists>add. h = Element ''div'' [''ce-block''] [] []
                  [foldl wrap_step (content_node A b) ?ts, add]"
    by (simp add: dom_make_def)
qed

lemma keys_map_set:
  "map fst (map_set k v m) = (if k \<in> set (map fst m) then map fst m else map fst m @ [k])"
  by (induction m) (auto simp: rev_image_eqI)

lemma set_map_set: "fst ` set (map_set k v m) = insert k (fst ` set m)"
proof -
  have "set (map fst (map_set k v m)) = insert k (set (map fst m))"
    unfolding keys_map_set by auto
  then show ?thesis by simp
qed

lemma composeTunes_fields:
  "toolInstance (fst (composeTunes ts td b w)) = toolInstance b
   \<and> unavailableTunesData (fst (composeTunes ts td b w)) = unavailableTunesData b
   \<and> cachedInputs (fst (composeTunes ts td b w)) = cachedInputs b
   \<and> inputIndex (fst (composeTunes ts td b w)) = inputIndex b
   \<and> fst ` set (tunesInstances (fst (composeTunes ts td b w)))
        \<subseteq> fst ` set (tunesInstances b) \<union> tune_name ` set ts
   \<and> fst ` set (defaultTunesInstances (fst (composeTunes ts td b w)))
        \<subseteq> fst ` set (defaultTunesInstances b) \<union> tune_name ` set ts"
proof (induction ts arbitrary: b)
  case Nil
  then show ?case by (simp add: composeTunes_def)
next
  case (Cons t ts)
  let ?inst = "tune_create t (js_get td (tune_name t))"
  show ?case
  proof (cases "isInternal t")
    case True
    let ?b = "b\<lparr>defaultTunesInstances := map_set (tune_name t) ?inst (defaultTunesInstances b)\<rparr>"
    have step: "fst (composeTunes (t # ts) td b w) = fst (composeTunes ts td ?b w)"
      using True by (simp add: composeTunes_def Let_def)
    have "fst ` set (defaultTunesInstances ?b) = insert (tune_name t) (fst ` set (defaultTunesInstances b))"
      by (simp add: set_map_set)
    moreover have "toolInstance ?b = toolInstance b" "unavailableTunesData ?b = unavailableTunesData b"
      "tunesInstances ?b = tunesInstances b" "cachedInputs ?b = cachedInputs b"
      "inputIndex ?b = inputIndex b" by simp_all
    ultimately show ?thesis using Cons.IH [of ?b] unfolding step by auto
  next
    case False
    let ?b = "b\<lparr>tunesInstances := map_set (tune_name t) ?inst (tunesInstances b)\<rparr>"
    have step: "fst (composeTunes (t # ts) td b w) = fst (composeTunes ts td ?b w)"
      using False by (simp add: composeTunes_def Let_def)
    have "fst ` set (tunesInstances ?b) = insert (tune_name t) (fst ` set (tunesInstances b))"
      by (simp add: set_map_set)
    moreover have "toolInstance ?b = toolInstance b" "unavailableTunesData ?b = unavailableTunesData b"
      "defaultTunesInstances ?b = defaultTunesInstances b" "cachedInputs ?b = cachedInputs b"
      "inputIndex ?b = inputIndex b" by simp_all
    ultimately show ?thesis using Cons.IH [of ?b] unfolding step by auto
  qed
qed

lemma heap_unavailable_absent:
  "n \<notin> fst ` set td \<Longrightarrow>
   own_props (heap (foldl (\<lambda>w (name, data).
                 if \<not> map_has name m then obj_set a name data w else w) w td) a) n
     = own_props (heap w a) n"
proof (induction td arbitrary: w)
  case Nil
  then show ?case by simp
next
  case (Cons entry td)
  obtain k d where entry: "entry = (k, d)" by (cases entry)
  with Cons.prems have "k \<noteq> n" and "n \<notin> fst ` set td" by auto
  with Cons.IH [of "obj_set a k d w"] Cons.IH [of w] entry
  show ?case by (simp add: own_obj_assign_other)
qed

lemma heap_unavailable_present:
  "distinct (map fst td) \<Longrightarrow> (n, payload) \<in> set td \<Longrightarrow> \<not> map_has n m \<Longrightarrow>
   n \<noteq> ''__proto__'' \<Longrightarrow>
   own_props (heap (foldl (\<lambda>w (name, data).
                 if \<not> map_has name m then obj_set a name data w else w) w td) a) n
     = Some payload"
proof (induction td arbitrary: w)
  case Nil
  then show ?case by simp
next
  case (Cons entry td)
  obtain k d where entry: "entry = (k, d)" by (cases entry)
  show ?case
  proof (cases "k = n")
    case True
    with Cons.prems entry have "n \<notin> fst ` set td" and "d = payload"
      by (auto simp: rev_image_eqI)
    with heap_unavailable_absent [of n td m a "obj_set a n payload w"] True entry Cons.prems(3,4)
    show ?thesis by (simp add: own_obj_assign_same)
  next
    case False
    with Cons.prems entry have "(n, payload) \<in> set td" and "distinct (map fst td)" by auto
    with Cons.IH Cons.prems(3,4) entry show ?thesis by simp
  qed
qed

lemma heap_composeTunes:
  assumes "distinct (map fst td)" and "(n, payload) \<in> set td"
    and "n \<notin> fst ` set (tunesInstances (fst (composeTunes ts td b w)))"
    and "n \<noteq> ''__proto__''"
  shows "own_props (heap (snd (composeTunes ts td b w)) (unavailableTunesData b)) n = Some payload"
proof -
  let ?b1 = "fst (composeTunes ts td b w)"
  have snd_eq: "snd (composeTunes ts td b w) =
      foldl (\<lambda>w (name, data).
               if \<not> map_has name (tunesInstances ?b1)
               then obj_set (unavailableTunesData ?b1) name data w else w) w td"
    by (simp add: composeTunes_def Let_def cong: if_cong)
  have a: "unavailableTunesData ?b1 = unavailableTunesData b"
    using composeTunes_fields [of ts td b w] by simp
  have "\<not> map_has n (tunesInstances ?b1)" using assms(3) by (simp add: map_has_def)
  from heap_unavailable_present [OF assms(1,2) this assms(4), of "unavailableTunesData ?b1" w]
  show ?thesis unfolding snd_eq a by simp
qed

lemma new_block_facts:
  assumes "new_block A generated opts w = (b, w')"
  shows "toolInstance b = tool_create (opt_tool opts) (opt_data opts) (opt_readOnly opts)"
    and "unavailableTunesData b = next_addr w"
    and "fst ` set (tunesInstances b @ defaultTunesInstances b)
           \<subseteq> tune_name ` set (tool_tunes (opt_tool opts))"
    and "distinct (map fst (opt_tunesData opts)) \<Longrightarrow> (n, payload) \<in> set (opt_tunesData opts) \<Longrightarrow>
         n \<notin> tune_name ` set (tool_tunes (opt_tool opts)) \<Longrightarrow> n \<noteq> ''__proto__'' \<Longrightarrow>
         own_props (heap w' (unavailableTunesData b)) n = Some payload"
    and "index_tracked b"
    and "\<exists>b1 add. tunesInstances b1 = tunesInstances b
           \<and> defaultTunesInstances b1 = defaultTunesInstances b
           \<and> toolInstance b1 = toolInstance b
           \<and> holder b = Element ''div'' [''ce-block''] [] []
                [foldl wrap_step (content_node A b1)
                   (map snd (tunesInstances b) @ map snd (defaultTunesInstances b)), add]"
proof -
  let ?a = "next_addr w"
  let ?w0 = "w\<lparr>heap := (heap w)(?a := \<lparr>own_props = Map.empty, prototype_of = ObjectPrototype\<rparr>),
                next_addr := Suc ?a\<rparr>"
  let ?b0 = "\<lparr>block_id = (case opt_id opts of None \<Rightarrow> generated | Some i \<Rightarrow> i),
                  block_name = tool_name (opt_tool opts),
                  holder = dom_make ''div'' [],
                  toolInstance = tool_create (opt_tool opts) (opt_data opts) (opt_readOnly opts),
                  tunesInstances = [],
                  defaultTunesInstances = [],
                  unavailableTunesData = ?a,
                  cachedInputs = [],
                  inputIndex = 0,
                  nodes_toolbox = dom_make ''div'' [],
                  nodes_buttons = [],
                  displayedToolsCount = 0,
                  canBeRemoved = opt_canBeRemoved opts,
                  canBeEdited = opt_canBeEdited opts,
                  opened = False\<rparr>"
  let ?ct = "composeTunes (tool_tunes (opt_tool opts)) (opt_tunesData opts) ?b0 ?w0"
  obtain b1 w1 where ct: "?ct = (b1, w1)" by (cases ?ct)
  obtain b2 h w2 where co: "compose A b1 w1 = ((b2, h), w2)"
    by (cases "compose A b1 w1") auto
  have nb: "new_block A generated opts w = (b2\<lparr>holder := h\<rparr>, w2)"
    using ct co by (simp add: new_block_def alloc_def Let_def)
  with assms have b: "b = b2\<lparr>holder := h\<rparr>" and w': "w' = w2" by simp_all
  note cf = compose_frame [OF co]
  have f: "toolInstance b1 = toolInstance ?b0" "unavailableTunesData b1 = unavailableTunesData ?b0"
    "cachedInputs b1 = cachedInputs ?b0" "inputIndex b1 = inputIndex ?b0"
    "fst ` set (tunesInstances b1) \<subseteq> fst ` set (tunesInstances ?b0) \<union> tune_name ` set (tool_tunes (opt_tool opts))"
    "fst ` set (defaultTunesInstances b1) \<subseteq> fst ` set (defaultTunesInstances ?b0) \<union> tune_name ` set (tool_tunes (opt_tool opts))"
    using composeTunes_fields [of "tool_tunes (opt_tool opts)" "opt_tunesData opts" ?b0 ?w0] ct
    by simp_all
  show "toolInstance b = tool_create (opt_tool opts) (opt_data opts) (opt_readOnly opts)"
    using b cf(1) f(1) by simp
  show addr: "unavailableTunesData b = next_addr w"
    using b cf(4) f(2) by simp
  show names: "fst ` set (tunesInstances b @ defaultTunesInstances b)
           \<subseteq> tune_name ` set (tool_tunes (opt_tool opts))"
    using b cf(2,3) f(5,6) by auto
  show "own_props (heap w' (unavailableTunesData b)) n = Some payload"
    if "distinct (map fst (opt_tunesData opts))" and "(n, payload) \<in> set (opt_tunesData opts)"
      and "n \<notin> tune_name ` set (tool_tunes (opt_tool opts))" and "n \<noteq> ''__proto__''"
  proof -
    from that(3) f(5) have "n \<notin> fst ` set (tunesInstances (fst ?ct))" using ct by auto
    from heap_composeTunes [OF that(1,2) this that(4)] ct
    have "own_props (heap w1 ?a) n = Some payload" by simp
    with cf(5) w' addr show ?thesis by simp
  qed
  show "index_tracked b"
    using b cf(6,7) f(3,4) by (simp add: index_tracked_def)
  from cf(8) obtain add where
    "h = Element ''div'' [''ce-block''] [] []
           [foldl wrap_step (content_node A b1)
              (map snd (tunesInstances b1) @ map snd (defaultTunesInstances b1)), add]" by blast
  with b cf(1,2,3)
  show "\<exists>b1 add. tunesInstances b1 = tunesInstances b
           \<and> defaultTunesInstances b1 = defaultTunesInstances b
           \<and> toolInstance b1 = toolInstance b
           \<and> holder b = Element ''div'' [''ce-block''] [] []
                [foldl wrap_step (content_node A b1)
                   (map snd (tunesInstances b) @ map snd (defaultTunesInstances b)), add]"
    by (intro exI [of _ b1] exI [of _ add]) simp
qed

lemma map_set_fresh: "k \<notin> fst ` set m \<Longrightarrow> map_set k v m = m @ [(k, v)]"
  by (induction m) auto

lemma composeTunes_instances:
  assumes "distinct (map tune_name ts)"
    and "tune_name ` set ts \<inter> (fst ` set (tunesInstances b) \<union> fst ` set (defaultTunesInstances b)) = {}"
  shows "tunesInstances (fst (composeTunes ts td b w)) =
           tunesInstances b
           @ map (\<lambda>t. (tune_name t, tune_create t (js_get td (tune_name t))))
               (filter (\<lambda>t. \<not> isInternal t) ts)
       \<and> defaultTunesInstances (fst (composeTunes ts td b w)) =
           defaultTunesInstances b
           @ map (\<lambda>t. (tune_name t, tune_create t (js_get td (tune_name t))))
               (filter isInternal ts)"
  using assms
proof (induction ts arbitrary: b)
  case Nil
  then show ?case by (simp add: composeTunes_def)
next
  case (Cons t ts)
  let ?inst = "tune_create t (js_get td (tune_name t))"
  from Cons.prems have fresh: "tune_name t \<notin> fst ` set (tunesInstances b)"
    "tune_name t \<notin> fst ` set (defaultTunesInstances b)"
    and d: "distinct (map tune_name ts)" and notin: "tune_name t \<notin> tune_name ` set ts"
    and disj: "tune_name ` set ts \<inter> (fst ` set (tunesInstances b) \<union> fst ` set (defaultTunesInstances b)) = {}"
    by auto
  show ?case
  proof (cases "isInternal t")
    case True
    let ?b = "b\<lparr>defaultTunesInstances := defaultTunesInstances b @ [(tune_name t, ?inst)]\<rparr>"
    have step: "fst (composeTunes (t # ts) td b w) = fst (composeTunes ts td ?b w)"
      using True fresh by (simp add: composeTunes_def Let_def map_set_fresh)
    have "tune_name ` set ts \<inter> (fst ` set (tunesInstances ?b) \<union> fst ` set (defaultTunesInstances ?b)) = {}"
      using disj notin by auto
    from Cons.IH [OF d this] True show ?thesis unfolding step by simp
  next
    case False
    let ?b = "b\<lparr>tunesInstances := tunesInstances b @ [(tune_name t, ?inst)]\<rparr>"
    have step: "fst (composeTunes (t # ts) td b w) = fst (composeTunes ts td ?b w)"
      using False fresh by (simp add: composeTunes_def Let_def map_set_fresh)
    have "tune_name ` set ts \<inter> (fst ` set (tunesInstances ?b) \<union> fst ` set (defaultTunesInstances ?b)) = {}"
      using disj notin by auto
    from Cons.IH [OF d this] False show ?thesis unfolding step by simp
  qed
qed

lemma new_block_instances:
  assumes "new_block A generated opts w = (b, w')"
    and "distinct (map tune_name (tool_tunes (opt_tool opts)))"
  shows "tunesInstances b =
           map (\<lambda>t. (tune_name t, tune_create t (js_get (opt_tunesData opts) (tune_name t))))
             (filter (\<lambda>t. \<not> isInternal t) (tool_tunes (opt_tool opts)))"
    and "defaultTunesInstances b =
           map (\<lambda>t. (tune_name t, tune_create t (js_get (opt_tunesData opts) (tune_name t))))
             (filter isInternal (tool_tunes (opt_tool opts)))"
proof -
  let ?a = "next_addr w"
  let ?w0 = "w\<lparr>heap := (heap w)(?a := \<lparr>own_props = Map.empty, prototype_of = ObjectPrototype\<rparr>),
                next_addr := Suc ?a\<rparr>"
  let ?b0 = "\<lparr>block_id = (case opt_id opts of None \<Rightarrow> generated | Some i \<Rightarrow> i),
                  block_name = tool_name (opt_tool opts),
                  holder = dom_make ''div'' [],
                  toolInstance = tool_create (opt_tool opts) (opt_data opts) (opt_readOnly opts),
                  tunesInstances = [],
                  defaultTunesInstances = [],
                  unavailableTunesData = ?a,
                  cachedInputs = [],
                  inputIndex = 0,
                  nodes_toolbox = dom_make ''div'' [],
                  nodes_buttons = [],
                  displayedToolsCount = 0,
                  canBeRemoved = opt_canBeRemoved opts,
                  canBeEdited = opt_canBeEdited opts,
                  opened = False\<rparr>"
  let ?ct = "composeTunes (tool_tunes (opt_tool opts)) (opt_tunesData opts) ?b0 ?w0"
  obtain b1 w1 where ct: "?ct = (b1, w1)" by (cases ?ct)
  obtain b2 h w2 where co: "compose A b1 w1 = ((b2, h), w2)"
    by (cases "compose A b1 w1") auto
  have nb: "new_block A generated opts w = (b2\<lparr>holder := h\<rparr>, w2)"
    using ct co by (simp add: new_block_def alloc_def Let_def)
  with assms have b: "b = b2\<lparr>holder := h\<rparr>" by simp
  note cf = compose_frame [OF co]
  have "tune_name ` set (tool_tunes (opt_tool opts))
          \<inter> (fst ` set (tunesInstances ?b0) \<union> fst ` set (defaultTunesInstances ?b0)) = {}"
    by simp
  from composeTunes_instances [OF assms(2) this, of "opt_tunesData opts" ?w0] ct
  have "tunesInstances b1 =
           map (\<lambda>t. (tune_name t, tune_create t (js_get (opt_tunesData opts) (tune_name t))))
             (filter (\<lambda>t. \<not> isInternal t) (tool_tunes (opt_tool opts)))"
    and "defaultTunesInstances b1 =
           map (\<lambda>t. (tune_name t, tune_create t (js_get (opt_tunesData opts) (tune_name t))))
             (filter isInternal (tool_tunes (opt_tool opts)))"
    by simp_all
  with b cf(2,3)
  show "tunesInstances b =
           map (\<lambda>t. (tune_name t, tune_create t (js_get (opt_tunesData opts) (tune_name t))))
             (filter (\<lambda>t. \<not> isInternal t) (tool_tunes (opt_tool opts)))"
    and "defaultTunesInstances b =
           map (\<lambda>t. (tune_name t, tune_create t (js_get (opt_tunesData opts) (tune_name t))))
             (filter isInternal (tool_tunes (opt_tool opts)))"
    by simp_all
qed

lemma wrap_fold_nesting:
  "list_all2 (\<lambda>t wf. tune_wrap t = Some (\<lambda>n. Inr (wf n))) ts ws \<Longrightarrow>
   foldl wrap_step n ts = foldr (\<lambda>wf inner. wf inner) (rev ws) n"
  by (induction ts ws arbitrary: n rule: list_all2_induct) (simp_all add: wrap_step_def)

lemma content_node_cong: "toolInstance b1 = toolInstance b \<Longrightarrow> content_node A b1 = content_node A b"
  by (simp add: content_node_def)

text \<open>
  Claim C9. For a unit built by the constructor, the first child of the holder is the
  left fold of the wrap step over the user tune instances followed by the internal
  ones, started from the content node that holds the tool's rendered content. When
  the names of the tool's tunes are distinct, that sequence is the user tunes in the
  order of the tool's tune collection followed by the internal tunes in that order.
  When each tune of the sequence has a wrap hook that returns a wrapper around its
  argument, the fold is the nesting in which the last tune is outermost and the
  content is innermost.
\<close>

theorem compose_is_left_fold:
  assumes "new_block A generated opts w = (b, w')"
  shows "(\<exists>add. holder b = Element ''div'' [''ce-block''] [] []
                   [foldl wrap_step (content_node A b)
                      (map snd (tunesInstances b) @ map snd (defaultTunesInstances b)), add])
       \<and> (distinct (map tune_name (tool_tunes (opt_tool opts))) \<longrightarrow>
            map snd (tunesInstances b) @ map snd (defaultTunesInstances b) =
              map (\<lambda>t. tune_create t (js_get (opt_tunesData opts) (tune_name t)))
                (filter (\<lambda>t. \<not> isInternal t) (tool_tunes (opt_tool opts))
                 @ filter isInternal (tool_tunes (opt_tool opts))))
       \<and> (\<forall>ws. list_all2 (\<lambda>t wf. tune_wrap t = Some (\<lambda>n. Inr (wf n)))
                  (map snd (tunesInstances b) @ map snd (defaultTunesInstances b)) ws \<longrightarrow>
              (\<exists>add. holder b = Element ''div'' [''ce-block''] [] []
                        [foldr (\<lambda>wf inner. wf inner) (rev ws) (content_node A b), add]))"
proof -
  from new_block_facts(6) [OF assms] obtain b1 add where
    ti: "toolInstance b1 = toolInstance b"
    and h: "holder b = Element ''div'' [''ce-block''] [] []
                [foldl wrap_step (content_node A b1)
                   (map snd (tunesInstances b) @ map snd (defaultTunesInstances b)), add]"
    by blast
  have 1: "holder b = Element ''div'' [''ce-block''] [] []
                [foldl wrap_step (content_node A b)
                   (map snd (tunesInstances b) @ map snd (defaultTunesInstances b)), add]"
    using h content_node_cong [OF ti, of A] by simp
  have 2: "map snd (tunesInstances b) @ map snd (defaultTunesInstances b) =
              map (\<lambda>t. tune_create t (js_get (opt_tunesData opts) (tune_name t)))
                (filter (\<lambda>t. \<not> isInternal t) (tool_tunes (opt_tool opts))
                 @ filter isInternal (tool_tunes (opt_tool opts)))"
    if "distinct (map tune_name (tool_tunes (opt_tool opts)))"
    using new_block_instances [OF assms that] by (simp add: comp_def)
  have 3: "\<exists>add. holder b = Element ''div'' [''ce-block''] [] []
                        [foldr (\<lambda>wf inner. wf inner) (rev ws) (content_node A b), add]"
    if "list_all2 (\<lambda>t wf. tune_wrap t = Some (\<lambda>n. Inr (wf n)))
          (map snd (tunesInstances b) @ map snd (defaultTunesInstances b)) ws" for ws
    using 1 wrap_fold_nesting [OF that, of "content_node A b"] by simp
  show ?thesis
  proof (intro conjI allI impI)
    show "\<exists>add. holder b = Element ''div'' [''ce-block''] [] []
                   [foldl wrap_step (content_node A b)
                      (map snd (tunesInstances b) @ map snd (defaultTunesInstances b)), add]"
      using 1 by (rule exI)
  next
    assume "distinct (map tune_name (tool_tunes (opt_tool opts)))"
    then show "map snd (tunesInstances b) @ map snd (defaultTunesInstances b) =
              map (\<lambda>t. tune_create t (js_get (opt_tunesData opts) (tune_name t)))
                (filter (\<lambda>t. \<not> isInternal t) (tool_tunes (opt_tool opts))
                 @ filter isInternal (tool_tunes (opt_tool opts)))"
      by (rule 2)
  next
    fix ws
    assume "list_all2 (\<lambda>t wf. tune_wrap t = Some (\<lambda>n. Inr (wf n)))
          (map snd (tunesInstances b) @ map snd (defaultTunesInstances b)) ws"
    then show "\<exists>add. holder b = Element ''div'' [''ce-block''] [] []
                        [foldr (\<lambda>wf inner. wf inner) (rev ws) (content_node A b), add]"
      by (rule 3)
  qed
qed

text \<open>
  What the constructor and \<open>save\<close> do keep: a payload persisted under a name that no
  tune of the tool carries, other than \<^verbatim>\<open>__proto__\<close>, is an own entry of the tunes
  object of the result.
\<close>

lemma unavailable_tune_data_kept:
  assumes "new_block A generated opts w = (b, w1)"
    and "distinct (map fst (opt_tunesData opts))"
    and "(n, payload) \<in> set (opt_tunesData opts)"
    and "n \<notin> tune_name ` set (tool_tunes (opt_tool opts))"
    and "n \<noteq> ''__proto__''"
    and "tool_save (toolInstance b) (pluginsContent D b) = Inr d"
  shows "\<exists>w2 saved. save D ms me b w1 = (w2, Inr (Some saved))
           \<and> own_props (heap w2 (saved_tunes saved)) n = Some payload"
proof -
  let ?es = "tunesInstances b @ defaultTunesInstances b"
  let ?a = "unavailableTunesData b"
  have kept: "own_props (heap w1 ?a) n = Some payload"
    using new_block_facts(4) [OF assms(1,2,3,4,5)] .
  have "n \<notin> fst ` set ?es" using new_block_facts(3) [OF assms(1)] assms(4) by blast
  then have "tune_payloads ?es n = None" by (rule tune_payloads_absent)
  then have "own_props (heap (saveTunes ?es ?a w1) ?a) n = own_props (heap w1 ?a) n"
    by (rule own_saveTunes_untouched)
  with kept save_resolved [OF assms(6), of ms me w1] show ?thesis by simp
qed

lemma proto_new_block:
  "new_block example_api ''generated'' proto_options empty_world = (B, W) \<Longrightarrow>
     toolInstance B = paragraph_instance
   \<and> tunesInstances B =
       [(''align'', tune_create align_tune JUndefined),
        (''broken'', tune_create broken_tune JUndefined)]
   \<and> defaultTunesInstances B = [(''readonly'', tune_create readonly_tune JUndefined)]
   \<and> unavailableTunesData B = 0
   \<and> block_id B = ''b1'' \<and> block_name B = ''paragraph''
   \<and> heap W 0 = \<lparr>own_props = Map.empty, prototype_of = ValuePrototype (JObj [(''x'', JNum 1)])\<rparr>"
  by (auto simp add: new_block_def alloc_def proto_options_def example_options_def empty_world_def
     composeTunes_def compose_def paragraph_tool_def align_tune_def broken_tune_def readonly_tune_def
     js_get_def object_prototype_members_def map_has_def obj_set_def obj_assign_def
     reaches_setter_def example_api_def addTool_def truthy_def dom_make_def log_def
     paragraph_instance_def Let_def)

text \<open>
  Claim C6 does not hold of the code for the name \<^verbatim>\<open>__proto__\<close>. The unit below is
  constructed from persisted tune data whose one entry has that name, which no tune of
  the tool carries. The constructor's assignment reaches the prototype setter: the
  payload becomes the prototype of the object of unavailable data and no entry is
  made. \<open>save\<close> resolves, and the tunes object of its result has no own entry
  \<^verbatim>\<open>__proto__\<close>: its own entries are those of the two tunes that save.
\<close>

theorem proto_payload_dropped:
  "opt_tunesData proto_options = [(''__proto__'', JObj [(''x'', JNum 1)])]
   \<and> ''__proto__'' \<notin> set (map tune_name (tool_tunes (opt_tool proto_options)))
   \<and> snd (save example_dom 0 5
            (fst (new_block example_api ''generated'' proto_options empty_world))
            (snd (new_block example_api ''generated'' proto_options empty_world)))
       = Inr (Some \<lparr>saved_id = ''b1'', saved_tool = ''paragraph'',
                    saved_data = JObj [(''text'', JStr ''hi'')], saved_tunes = 0, saved_time = 5\<rparr>)
   \<and> heap (fst (save example_dom 0 5
            (fst (new_block example_api ''generated'' proto_options empty_world))
            (snd (new_block example_api ''generated'' proto_options empty_world)))) 0
       = \<lparr>own_props = [''align'' \<mapsto> JUndefined, ''readonly'' \<mapsto> JBool False],
          prototype_of = ValuePrototype (JObj [(''x'', JNum 1)])\<rparr>
   \<and> own_props (heap (fst (save example_dom 0 5
            (fst (new_block example_api ''generated'' proto_options empty_world))
            (snd (new_block example_api ''generated'' proto_options empty_world)))) 0)
         ''__proto__'' = None"
proof -
  let ?B = "fst (new_block example_api ''generated'' proto_options empty_world)"
  let ?W = "snd (new_block example_api ''generated'' proto_options empty_world)"
  note u = proto_new_block [of ?B ?W, simplified]
  have extracted: "tool_save (toolInstance ?B) (pluginsContent example_dom ?B)
                     = Inr (JObj [(''text'', JStr ''hi'')])"
    using u by (simp add: paragraph_instance_def)
  have data: "opt_tunesData proto_options = [(''__proto__'', JObj [(''x'', JNum 1)])]"
    by (simp add: proto_options_def)
  have names: "''__proto__'' \<notin> set (map tune_name (tool_tunes (opt_tool proto_options)))"
    by (simp add: proto_options_def example_options_def paragraph_tool_def
          align_tune_def broken_tune_def readonly_tune_def)
  have store: "heap (saveTunes (tunesInstances ?B @ defaultTunesInstances ?B) 0 ?W) 0
       = \<lparr>own_props = [''align'' \<mapsto> JUndefined, ''readonly'' \<mapsto> JBool False],
          prototype_of = ValuePrototype (JObj [(''x'', JNum 1)])\<rparr>"
    using u
    by (simp add: heap_saveTunes assign_all_def obj_assign_def align_tune_def broken_tune_def
          readonly_tune_def)
  from data names store u show ?thesis
    unfolding save_resolved [OF extracted] by simp
qed

theorem compose_is_left_fold_witness:
  "\<exists>add. holder (fst (new_block example_api ''generated'' wrapping_options empty_world)) =
     Element ''div'' [''ce-block''] [] []
       [Element ''div'' [''readonly-wrapper''] [] []
          [Element ''div'' [''align-wrapper''] [] []
             [content_node example_api
                (fst (new_block example_api ''generated'' wrapping_options empty_world))]],
        add]"
proof -
  let ?b = "fst (new_block example_api ''generated'' wrapping_options empty_world)"
  let ?w = "snd (new_block example_api ''generated'' wrapping_options empty_world)"
  let ?ws = "[\<lambda>n. Element ''div'' [''align-wrapper''] [] [] [n],
              \<lambda>n. Element ''div'' [''readonly-wrapper''] [] [] [n]]"
  have built: "new_block example_api ''generated'' wrapping_options empty_world = (?b, ?w)"
    by simp
  note fold = compose_is_left_fold [OF built]
  have names: "distinct (map tune_name (tool_tunes (opt_tool wrapping_options)))"
    by (simp add: wrapping_options_def readonly_tune_def align_tune_def)
  with fold have seq: "map snd (tunesInstances ?b) @ map snd (defaultTunesInstances ?b) =
      map (\<lambda>t. tune_create t (js_get (opt_tunesData wrapping_options) (tune_name t)))
        (filter (\<lambda>t. \<not> isInternal t) (tool_tunes (opt_tool wrapping_options))
         @ filter isInternal (tool_tunes (opt_tool wrapping_options)))"
    by blast
  have "list_all2 (\<lambda>t wf. tune_wrap t = Some (\<lambda>n. Inr (wf n)))
          (map snd (tunesInstances ?b) @ map snd (defaultTunesInstances ?b)) ?ws"
    unfolding seq by (simp add: wrapping_options_def readonly_tune_def align_tune_def)
  with fold have "\<exists>add. holder ?b = Element ''div'' [''ce-block''] [] []
                        [foldr (\<lambda>wf inner. wf inner) (rev ?ws) (content_node example_api ?b), add]"
    by blast
  then show ?thesis by simp
qed

subsection \<open>Which hooks are isolated\<close>

lemma wrapTunes_append:
  "wrapTunes (xs @ ys) n w = (case wrapTunes xs n w of (n', w') \<Rightarrow> wrapTunes ys n' w')"
  by (induction xs n w rule: wrapTunes.induct) (simp_all split: option.splits sum.splits)

text \<open>
  Claim C5, as stated, fails: the \<^verbatim>\<open>validate\<close> hook of the tool instance below
  throws, and \<open>validate\<close> of the unit rejects with that error; the world is
  unchanged, so nothing was logged.
\<close>

theorem validate_propagates_hook_error:
  "validate JNull (example_block\<lparr>toolInstance := faulty_instance\<rparr>) example_world =
     (example_world, Inl (Error ''validate failed''))"
  by (simp add: validate_def faulty_instance_def)

text \<open>
  Claim C5, amended. The hooks of tunes are isolated: when the \<^verbatim>\<open>save\<close> hook of a
  tune throws, the loop of \<open>save\<close> goes on with the tunes after it from the state
  the tunes before it left, with one warning logged; and likewise for the
  \<^verbatim>\<open>wrap\<close> hook in the loop of \<open>compose\<close>, whose node stays the one reached before.
  The hooks \<^verbatim>\<open>validate\<close>, \<^verbatim>\<open>merge\<close> and \<^verbatim>\<open>destroy\<close> of the tool are not: an error
  thrown by one is the error \<open>validate\<close>, \<open>mergeWith\<close> or \<open>destroy\<close> fails with,
  and no log entry is written.
\<close>

theorem hook_fault_isolation:
  "(tune_save t = Some shook \<and> shook () = Inl e \<longrightarrow>
      saveTunes (pre @ (name, t) # post) a w =
        saveTunes post a
          (log (''Tune '' @ constructor_name t @ '' save method throws an Error %o'')
             ''warn'' (ErrArg e) (saveTunes pre a w)))
   \<and> (tune_wrap t = Some whook \<and> whook (fst (wrapTunes tpre n w)) = Inl e \<longrightarrow>
      wrapTunes (tpre @ t # tpost) n w =
        wrapTunes tpost (fst (wrapTunes tpre n w))
          (log (''Tune '' @ constructor_name t @ '' wrap method throws an Error %o'')
             ''warn'' (ErrArg e) (snd (wrapTunes tpre n w))))
   \<and> (tool_validate (toolInstance b) = Some vhook \<and> vhook d = Inl e \<longrightarrow>
      validate d b w = (w, Inl e))
   \<and> (tool_merge (toolInstance b) = Some mhook \<and> mhook d = Some e \<longrightarrow>
      mergeWith d b w = (w\<lparr>trace := trace w @ [ToolMethod ''merge'']\<rparr>, Inl e))
   \<and> (tool_destroy (toolInstance b) = Some dhook \<and> dhook () = Some e \<longrightarrow>
      destroy b w = (w\<lparr>trace := trace w @ [DispatcherDestroy, ToolMethod ''destroy'']\<rparr>, Inl e))"
proof -
  have 1: "saveTunes (pre @ (name, t) # post) a w =
        saveTunes post a
          (log (''Tune '' @ constructor_name t @ '' save method throws an Error %o'')
             ''warn'' (ErrArg e) (saveTunes pre a w))"
    if "tune_save t = Some shook" and "shook () = Inl e"
    using that by (simp add: saveTunes_append)
  have 2: "wrapTunes (tpre @ t # tpost) n w =
        wrapTunes tpost (fst (wrapTunes tpre n w))
          (log (''Tune '' @ constructor_name t @ '' wrap method throws an Error %o'')
             ''warn'' (ErrArg e) (snd (wrapTunes tpre n w)))"
    if "tune_wrap t = Some whook" and "whook (fst (wrapTunes tpre n w)) = Inl e"
    using that by (cases "wrapTunes tpre n w") (simp add: wrapTunes_append)
  have 3: "validate d b w = (w, Inl e)"
    if "tool_validate (toolInstance b) = Some vhook" and "vhook d = Inl e"
    using that by (simp add: validate_def)
  have 4: "mergeWith d b w = (w\<lparr>trace := trace w @ [ToolMethod ''merge'']\<rparr>, Inl e)"
    if "tool_merge (toolInstance b) = Some mhook" and "mhook d = Some e"
    using that by (simp add: mergeWith_def record_event_def)
  have 5: "destroy b w = (w\<lparr>trace := trace w @ [DispatcherDestroy, ToolMethod ''destroy'']\<rparr>, Inl e)"
    if "tool_destroy (toolInstance b) = Some dhook" and "dhook () = Some e"
    using that by (simp add: destroy_def record_event_def Let_def)
  from 1 2 3 4 5 show ?thesis by blast
qed

theorem hook_fault_isolation_witness:
  "saveTunes ([(''align'', tune_create align_tune JNull)]
              @ (''broken'', tune_create broken_tune JNull)
              # [(''readonly'', tune_create readonly_tune JNull)]) 0 empty_world =
     saveTunes [(''readonly'', tune_create readonly_tune JNull)] 0
       (log ''Tune BrokenTune save method throws an Error %o'' ''warn''
          (ErrArg (Error ''tune save failed''))
          (saveTunes [(''align'', tune_create align_tune JNull)] 0 empty_world))
   \<and> wrapTunes ([tune_create align_tune JNull] @ tune_create broken_tune JNull
                 # [tune_create readonly_tune JNull]) new_paragraph empty_world =
     wrapTunes [tune_create readonly_tune JNull]
       (Element ''div'' [''align-wrapper''] [] [] [new_paragraph])
       (log ''Tune BrokenTune wrap method throws an Error %o'' ''warn''
          (ErrArg (Error ''tune wrap failed'')) empty_world)
   \<and> validate JNull (example_block\<lparr>toolInstance := faulty_instance\<rparr>) empty_world =
       (empty_world, Inl (Error ''validate failed''))
   \<and> mergeWith JNull (example_block\<lparr>toolInstance := faulty_instance\<rparr>) empty_world =
       (empty_world\<lparr>trace := [ToolMethod ''merge'']\<rparr>, Inl (Error ''merge failed''))
   \<and> destroy (example_block\<lparr>toolInstance := faulty_instance\<rparr>) empty_world =
       (empty_world\<lparr>trace := [DispatcherDestroy, ToolMethod ''destroy'']\<rparr>,
        Inl (Error ''destroy failed''))"
  using hook_fault_isolation
    [where t = "tune_create broken_tune JNull"
       and shook = "\<lambda>u. Inl (Error ''tune save failed'')"
       and e = "Error ''tune save failed''"
       and pre = "[(''align'', tune_create align_tune JNull)]"
       and name = "''broken''"
       and post = "[(''readonly'', tune_create readonly_tune JNull)]"
       and a = 0 and w = empty_world]
    hook_fault_isolation
    [where t = "tune_create broken_tune JNull"
       and whook = "\<lambda>n. Inl (Error ''tune wrap failed'')"
       and e = "Error ''tune wrap failed''"
       and tpre = "[tune_create align_tune JNull]"
       and tpost = "[tune_create readonly_tune JNull]"
       and n = new_paragraph and w = empty_world]
    hook_fault_isolation
    [where b = "example_block\<lparr>toolInstance := faulty_instance\<rparr>"
       and vhook = "\<lambda>d. Inl (Error ''validate failed'')"
       and e = "Error ''validate failed''" and d = JNull and w = empty_world]
    hook_fault_isolation
    [where b = "example_block\<lparr>toolInstance := faulty_instance\<rparr>"
       and mhook = "\<lambda>d. Some (Error ''merge failed'')"
       and e = "Error ''merge failed''" and d = JNull and w = empty_world]
    hook_fault_isolation
    [where b = "example_block\<lparr>toolInstance := faulty_instance\<rparr>"
       and dhook = "\<lambda>u. Some (Error ''destroy failed'')"
       and e = "Error ''destroy failed''" and w = empty_world]
  by (simp add: broken_tune_def align_tune_def faulty_instance_def empty_world_def)

end
